theory Spec2Isabelle
  imports Complex_Main
begin

section \<open>Data model (types/index.ts)\<close>

text \<open>
  The portal keeps three Firestore collections (appointments, prescriptions, feedback) and
  drives them from React pages. Each page handler is embedded as a function from the page's
  local state and the store to the toast it shows, the new local state and the new store.
  Timestamps are milliseconds since the epoch; JavaScript strings are character lists and
  \<open>.length\<close> is the list length; a rating is an integer-valued JavaScript number.
  Store calls are assumed to reach the store: the store failures that are modelled are
  \<open>updateDoc\<close> on a document that does not exist and \<open>addDoc\<close> with an undefined field,
  both of which the handlers catch, and a timestamp out of the store's range. A handler runs
  to its end before the next one starts.
\<close>

datatype role = role_patient | role_doctor

record User =
  uid :: string
  email :: string
  name :: string
  role :: role

record Doctor =
  d_uid :: string
  d_name :: string
  d_email :: string
  specialization :: "string option"

datatype status = Pending | Confirmed | InProgress | Completed

text \<open>The value of an HTML date input is a calendar date \<open>yyyy-mm-dd\<close> (or empty).\<close>

record CalDate =
  year :: int
  month :: int
  day :: int

record Appointment =
  apt_id :: string
  patientId :: string
  patientName :: string
  doctorId :: "string option"
  doctorName :: "string option"
  preferredDoctorId :: "string option"
  preferredDoctorName :: "string option"
  date :: CalDate
  time :: string
  healthConcern :: string
  status :: status
  createdAt :: int
  updatedAt :: int

record Medicine =
  med_name :: string
  dosage :: string
  frequency :: string

record Prescription =
  rx_id :: string
  rx_appointmentId :: string
  medicines :: "Medicine list"
  rx_createdAt :: int

record Feedback =
  fb_id :: string
  fb_appointmentId :: string
  fb_patientId :: string
  fb_doctorId :: string
  rating :: int
  comment :: "string option"
  fb_createdAt :: int

text \<open>The document store: one list of documents per collection, in insertion order.\<close>

record Db =
  db_appointments :: "Appointment list"
  db_prescriptions :: "Prescription list"
  db_feedback :: "Feedback list"

definition emptyDb :: Db where
  "emptyDb = \<lparr>db_appointments = [], db_prescriptions = [], db_feedback = []\<rparr>"

datatype toast = toast_success string | toast_error string

section \<open>Store operations (firebase/firestore)\<close>

text \<open>
  \<open>updateDoc(doc(db, 'appointments', id), patch)\<close> patches the document with that id and
  throws when there is none; \<open>None\<close> is the throw.
\<close>

definition updateDoc_appointments ::
  "string \<Rightarrow> (Appointment \<Rightarrow> Appointment) \<Rightarrow> Db \<Rightarrow> Db option" where
  "updateDoc_appointments i patch db =
     (if i \<in> set (map apt_id (db_appointments db))
      then Some (db\<lparr>db_appointments :=
                   map (\<lambda>a. if apt_id a = i then patch a else a) (db_appointments db)\<rparr>)
      else None)"

text \<open>\<open>orderBy('createdAt', 'desc')\<close>; documents with equal keys keep their store order.\<close>

definition orderBy_createdAt_desc :: "Appointment list \<Rightarrow> Appointment list" where
  "orderBy_createdAt_desc xs = sort_key (\<lambda>a. - createdAt a) xs"

text \<open>The status a document with the given id has in the store, and its claimed doctor.\<close>

definition status_of :: "Db \<Rightarrow> string \<Rightarrow> status option" where
  "status_of db i = map_option status (find (\<lambda>a. apt_id a = i) (db_appointments db))"

definition doctorId_of :: "Db \<Rightarrow> string \<Rightarrow> string option option" where
  "doctorId_of db i = map_option doctorId (find (\<lambda>a. apt_id a = i) (db_appointments db))"

section \<open>JavaScript dates\<close>

text \<open>
  \<open>new Date('yyyy-mm-dd')\<close> is midnight UTC of that date. \<open>setHours\<close> works in local
  time. The browser's time zone gives the offset of local time from UTC in milliseconds,
  both for an instant (\<open>utc_offset\<close>, the offset in force at that instant) and for a local
  time (\<open>local_offset\<close>, the offset in force at that local time); the two differ around a
  change of the clocks. A zone with one offset throughout is \<open>fixed_zone\<close>.
\<close>

record TimeZone =
  utc_offset :: "int \<Rightarrow> int"
  local_offset :: "int \<Rightarrow> int"

definition fixed_zone :: "int \<Rightarrow> TimeZone" where
  "fixed_zone c = \<lparr>utc_offset = (\<lambda>t. c), local_offset = (\<lambda>l. c)\<rparr>"

definition days_from_civil :: "CalDate \<Rightarrow> int" where
  "days_from_civil d =
     (let y = (if month d \<le> 2 then year d - 1 else year d);
          era = y div 400;
          yoe = y - era * 400;
          mp = (month d + 9) mod 12;
          doy = (153 * mp + 2) div 5 + day d - 1;
          doe = yoe * 365 + yoe div 4 - yoe div 100 + doy
      in era * 146097 + doe - 719468)"

definition new_Date :: "CalDate \<Rightarrow> int" where
  "new_Date d = days_from_civil d * 86400000"

text \<open>
  \<open>date.setHours(h, m, s, ms)\<close>: the local time of the instant, its day kept and its time
  of day replaced, taken back to UTC with the offset in force at the new local time.
\<close>

definition setHours :: "TimeZone \<Rightarrow> int \<Rightarrow> int \<Rightarrow> int \<Rightarrow> int \<Rightarrow> int \<Rightarrow> int" where
  "setHours zone t h m s ms =
     (let localTime = t + utc_offset zone t;
          newLocal = (localTime div 86400000) * 86400000 +
                     h * 3600000 + m * 60000 + s * 1000 + ms
      in newLocal - local_offset zone newLocal)"

definition startOfDay :: "TimeZone \<Rightarrow> CalDate \<Rightarrow> int" where
  "startOfDay zone d = setHours zone (new_Date d) 0 0 0 0"

text \<open>The second \<open>setHours\<close> acts on the date object the first one already moved.\<close>

definition endOfDay :: "TimeZone \<Rightarrow> CalDate \<Rightarrow> int" where
  "endOfDay zone d = setHours zone (startOfDay zone d) 23 59 59 999"

text \<open>
  \<open>Timestamp.fromDate\<close> throws for an instant before the year 1 or from the year 10000 on
  (seconds outside [-62135596800, 253402300800)); \<open>None\<close> is the throw.
\<close>

definition Timestamp_fromDate :: "int \<Rightarrow> int option" where
  "Timestamp_fromDate t =
     (if - 62135596800000 \<le> t \<and> t < 253402300800000 then Some t else None)"

section \<open>BookAppointment.tsx\<close>

definition digit_char :: "nat \<Rightarrow> char" where
  "digit_char n = char_of (48 + n)"

fun toString :: "nat \<Rightarrow> string" where
  "toString n = (if n < 10 then [digit_char n] else toString (n div 10) @ [digit_char (n mod 10)])"

declare toString.simps [simp del]

definition padStart :: "nat \<Rightarrow> char \<Rightarrow> string \<Rightarrow> string" where
  "padStart n c s = replicate (n - length s) c @ s"

function minute_loop :: "nat \<Rightarrow> nat \<Rightarrow> string list \<Rightarrow> string list" where
  "minute_loop hour minute slots =
     (if minute < 60
      then minute_loop hour (minute + 30)
             (slots @ [padStart 2 (CHR ''0'') (toString hour) @ '':'' @
                       padStart 2 (CHR ''0'') (toString minute)])
      else slots)"
  by pat_completeness auto
termination
  by (relation "measure (\<lambda>(hour, minute, slots). 60 - minute)") auto

declare minute_loop.simps [simp del]

function hour_loop :: "nat \<Rightarrow> string list \<Rightarrow> string list" where
  "hour_loop hour slots =
     (if hour \<le> 17 then hour_loop (hour + 1) (minute_loop hour 0 slots) else slots)"
  by pat_completeness auto
termination
  by (relation "measure (\<lambda>(hour, slots). 18 - hour)") auto

declare hour_loop.simps [simp del]

definition generateTimeSlots :: "string list" where
  "generateTimeSlots = hour_loop 9 []"

record FormData =
  f_preferredDoctorId :: string
  f_date :: "CalDate option"
  f_time :: string
  f_healthConcern :: string

definition emptyForm :: FormData where
  "emptyForm = \<lparr>f_preferredDoctorId = [], f_date = None, f_time = [], f_healthConcern = []\<rparr>"

text \<open>The query of lines 79-86: the patient's documents whose createdAt lies in the window.\<close>

definition existingAppointments :: "string \<Rightarrow> int \<Rightarrow> int \<Rightarrow> Db \<Rightarrow> Appointment list" where
  "existingAppointments pid startTs endTs db =
     filter (\<lambda>a. patientId a = pid \<and> startTs \<le> createdAt a \<and> createdAt a \<le> endTs)
       (db_appointments db)"

text \<open>
  \<open>handleSubmit\<close>: \<open>zone\<close> is the browser's time zone, \<open>now\<close> is \<open>Timestamp.now()\<close>,
  \<open>newId\<close> the id the store assigns to the added document. The result is the toast (if
  one is shown), the form afterwards and the store afterwards.
  The two \<open>Timestamp.fromDate\<close> calls stand outside the try: when one throws, the handler
  ends with no toast and no write. When the chosen doctor is not in the page's list,
  \<open>selectedDoctor?.name\<close> is undefined, \<open>addDoc\<close> throws on the undefined field and the
  handler's catch shows the failure toast.
\<close>

definition handleSubmit ::
  "TimeZone \<Rightarrow> int \<Rightarrow> string \<Rightarrow> User \<Rightarrow> Doctor list \<Rightarrow> FormData \<Rightarrow> Db \<Rightarrow>
   toast option \<times> FormData \<times> Db" where
  "handleSubmit zone now newId currentUser doctors formData db =
     (if f_preferredDoctorId formData = [] \<or> f_date formData = None \<or>
         f_time formData = [] \<or> f_healthConcern formData = []
      then (Some (toast_error ''Please fill in all fields''), formData, db)
      else if length (f_healthConcern formData) > 200
      then (Some (toast_error ''Health concern must be 200 characters or less''), formData, db)
      else
        (case f_date formData of
           None \<Rightarrow> (Some (toast_error ''Please fill in all fields''), formData, db)
         | Some d \<Rightarrow>
             (case Timestamp_fromDate (startOfDay zone d) of
                None \<Rightarrow> (None, formData, db)
              | Some startTs \<Rightarrow>
                  (case Timestamp_fromDate (endOfDay zone d) of
                     None \<Rightarrow> (None, formData, db)
                   | Some endTs \<Rightarrow>
                       if length (existingAppointments (uid currentUser) startTs endTs db) \<ge> 2
                       then (Some (toast_error
                                ''You cannot book more than 2 appointments on the same day''),
                             formData, db)
                       else
                         (case find (\<lambda>doc. d_uid doc = f_preferredDoctorId formData) doctors of
                            None \<Rightarrow>
                              (Some (toast_error ''Failed to book appointment''), formData, db)
                          | Some selectedDoctor \<Rightarrow>
                              (Some (toast_success ''Appointment booked successfully!''),
                               emptyForm,
                               db\<lparr>db_appointments := db_appointments db @
                                 [\<lparr>apt_id = newId,
                                   patientId = uid currentUser,
                                   patientName = name currentUser,
                                   doctorId = None,
                                   doctorName = None,
                                   preferredDoctorId = Some (f_preferredDoctorId formData),
                                   preferredDoctorName = Some (d_name selectedDoctor),
                                   date = d,
                                   time = f_time formData,
                                   healthConcern = f_healthConcern formData,
                                   status = Pending,
                                   createdAt = now,
                                   updatedAt = now\<rparr>]\<rparr>))))))"

section \<open>PendingAppointments.tsx\<close>

definition fetchPendingAppointments :: "Db \<Rightarrow> Appointment list" where
  "fetchPendingAppointments db =
     orderBy_createdAt_desc (filter (\<lambda>a. status a = Pending) (db_appointments db))"

text \<open>
  \<open>handleAcceptAppointment\<close>: \<open>appointments\<close> is the page's list. The Accept button is
  rendered once for each appointment of that list.
\<close>

definition handleAcceptAppointment ::
  "int \<Rightarrow> string \<Rightarrow> User \<Rightarrow> Appointment list \<Rightarrow> Db \<Rightarrow> toast \<times> Appointment list \<times> Db" where
  "handleAcceptAppointment now appointmentId currentUser appointments db =
     (case updateDoc_appointments appointmentId
             (\<lambda>a. a\<lparr>status := Confirmed,
                     doctorId := Some (uid currentUser),
                     doctorName := Some (name currentUser),
                     updatedAt := now\<rparr>) db of
        Some db' \<Rightarrow>
          (toast_success ''Appointment accepted successfully!'',
           filter (\<lambda>apt. apt_id apt \<noteq> appointmentId) appointments, db')
      | None \<Rightarrow> (toast_error ''Failed to accept appointment'', appointments, db))"

definition acceptButton :: "Appointment list \<Rightarrow> string \<Rightarrow> bool" where
  "acceptButton appointments appointmentId = (appointmentId \<in> set (map apt_id appointments))"

section \<open>DoctorAppointments.tsx\<close>

record DoctorPage =
  dp_currentUser :: User
  dp_appointments :: "Appointment list"
  dp_prescriptions :: "string \<rightharpoonup> Prescription"
  showPrescriptionModal :: "string option"
  prescriptionForm :: "Medicine list"

definition initialPrescriptionForm :: "Medicine list" where
  "initialPrescriptionForm = [\<lparr>med_name = [], dosage = [], frequency = []\<rparr>]"

text \<open>
  The loops of lines 59-78 and of PatientAppointments lines 166-185: for each completed
  appointment of the list, the first prescription the query returns, if any.
\<close>

fun fetchPrescriptions ::
  "Db \<Rightarrow> Appointment list \<Rightarrow> (string \<rightharpoonup> Prescription) \<Rightarrow> (string \<rightharpoonup> Prescription)" where
  "fetchPrescriptions db [] prescriptionsData = prescriptionsData"
| "fetchPrescriptions db (appointment # rest) prescriptionsData =
     fetchPrescriptions db rest
       (case find (\<lambda>p. rx_appointmentId p = apt_id appointment) (db_prescriptions db) of
          None \<Rightarrow> prescriptionsData
        | Some prescriptionDoc \<Rightarrow> prescriptionsData(apt_id appointment \<mapsto> prescriptionDoc))"

definition fetchMyAppointments :: "User \<Rightarrow> Db \<Rightarrow> DoctorPage" where
  "fetchMyAppointments currentUser db =
     (let appointmentsList =
            orderBy_createdAt_desc
              (filter (\<lambda>a. doctorId a = Some (uid currentUser)) (db_appointments db));
          completedAppointments = filter (\<lambda>apt. status apt = Completed) appointmentsList
      in \<lparr>dp_currentUser = currentUser,
          dp_appointments = appointmentsList,
          dp_prescriptions = fetchPrescriptions db completedAppointments Map.empty,
          showPrescriptionModal = None,
          prescriptionForm = initialPrescriptionForm\<rparr>)"

fun getNextStatus :: "status \<Rightarrow> status option" where
  "getNextStatus Confirmed = Some InProgress"
| "getNextStatus InProgress = Some Completed"
| "getNextStatus _ = None"

fun status_string :: "status \<Rightarrow> string" where
  "status_string Pending = ''pending''"
| "status_string Confirmed = ''confirmed''"
| "status_string InProgress = ''in-progress''"
| "status_string Completed = ''completed''"

text \<open>\<open>s.replace('-', ' ')\<close>: the first hyphen becomes a space.\<close>

fun replace_hyphen :: "string \<Rightarrow> string" where
  "replace_hyphen [] = []"
| "replace_hyphen (c # cs) = (if c = CHR ''-'' then CHR '' '' # cs else c # replace_hyphen cs)"

definition handleStatusUpdate ::
  "int \<Rightarrow> string \<Rightarrow> status \<Rightarrow> DoctorPage \<Rightarrow> Db \<Rightarrow> toast \<times> DoctorPage \<times> Db" where
  "handleStatusUpdate now appointmentId newStatus page db =
     (case updateDoc_appointments appointmentId
             (\<lambda>a. a\<lparr>status := newStatus, updatedAt := now\<rparr>) db of
        Some db' \<Rightarrow>
          (toast_success (''Appointment '' @ replace_hyphen (status_string newStatus) @
                          '' successfully!''),
           page\<lparr>dp_appointments :=
                  map (\<lambda>apt. if apt_id apt = appointmentId then apt\<lparr>status := newStatus\<rparr>
                              else apt)
                    (dp_appointments page)\<rparr>,
           db')
      | None \<Rightarrow> (toast_error ''Failed to update appointment status'', page, db))"

text \<open>
  The status button of lines 289-307, rendered for an appointment of the page's list when
  \<open>getNextStatus\<close> of its status on the page is not null; a click calls
  \<open>handleStatusUpdate\<close> with that next status. \<open>None\<close>: no button is rendered.
\<close>

definition clickStatusButton ::
  "int \<Rightarrow> Appointment \<Rightarrow> DoctorPage \<Rightarrow> Db \<Rightarrow> (toast \<times> DoctorPage \<times> Db) option" where
  "clickStatusButton now appointment page db =
     (if appointment \<in> set (dp_appointments page)
      then (case getNextStatus (status appointment) of
              None \<Rightarrow> None
            | Some newStatus \<Rightarrow>
                Some (handleStatusUpdate now (apt_id appointment) newStatus page db))
      else None)"

text \<open>
  The Add Prescription button of lines 310-318 opens the modal for an appointment of the
  page's list that the page shows as completed and without a prescription.
\<close>

definition addPrescriptionButton :: "DoctorPage \<Rightarrow> Appointment \<Rightarrow> bool" where
  "addPrescriptionButton page appointment =
     (appointment \<in> set (dp_appointments page) \<and> status appointment = Completed \<and>
      dp_prescriptions page (apt_id appointment) = None)"

definition clickAddPrescription :: "Appointment \<Rightarrow> DoctorPage \<Rightarrow> DoctorPage option" where
  "clickAddPrescription appointment page =
     (if addPrescriptionButton page appointment
      then Some (page\<lparr>showPrescriptionModal := Some (apt_id appointment)\<rparr>)
      else None)"

definition handleSubmitPrescription ::
  "int \<Rightarrow> string \<Rightarrow> string \<Rightarrow> DoctorPage \<Rightarrow> Db \<Rightarrow> toast \<times> DoctorPage \<times> Db" where
  "handleSubmitPrescription now newId appointmentId page db =
     (if list_ex (\<lambda>med. med_name med = [] \<or> dosage med = [] \<or> frequency med = [])
           (prescriptionForm page)
      then (toast_error ''Please fill in all medicine fields'', page, db)
      else
        (let prescriptionData =
               \<lparr>rx_id = newId, rx_appointmentId = appointmentId,
                medicines = prescriptionForm page, rx_createdAt = now\<rparr>
         in (toast_success ''Prescription added successfully!'',
             page\<lparr>dp_prescriptions := (dp_prescriptions page)(appointmentId \<mapsto> prescriptionData),
                  showPrescriptionModal := None,
                  prescriptionForm := initialPrescriptionForm\<rparr>,
             db\<lparr>db_prescriptions := db_prescriptions db @ [prescriptionData]\<rparr>)))"

text \<open>The modal's Add Prescription button (lines 404-410), there while the modal is open.\<close>

definition clickSubmitPrescription ::
  "int \<Rightarrow> string \<Rightarrow> DoctorPage \<Rightarrow> Db \<Rightarrow> (toast \<times> DoctorPage \<times> Db) option" where
  "clickSubmitPrescription now newId page db =
     (case showPrescriptionModal page of
        None \<Rightarrow> None
      | Some appointmentId \<Rightarrow> Some (handleSubmitPrescription now newId appointmentId page db))"

section \<open>PatientAppointments.tsx\<close>

record FeedbackForm =
  ff_rating :: int
  ff_comment :: string

record PatientPage =
  pt_currentUser :: User
  pt_appointments :: "Appointment list"
  pt_prescriptions :: "string \<rightharpoonup> Prescription"
  feedbacks :: "string \<rightharpoonup> Feedback"
  showFeedbackModal :: "string option"
  feedbackForm :: FeedbackForm

definition initialFeedbackForm :: FeedbackForm where
  "initialFeedbackForm = \<lparr>ff_rating = 5, ff_comment = []\<rparr>"

fun fetchFeedbacks ::
  "string \<Rightarrow> Db \<Rightarrow> Appointment list \<Rightarrow> (string \<rightharpoonup> Feedback) \<Rightarrow> (string \<rightharpoonup> Feedback)" where
  "fetchFeedbacks u db [] feedbacksData = feedbacksData"
| "fetchFeedbacks u db (appointment # rest) feedbacksData =
     fetchFeedbacks u db rest
       (case find (\<lambda>f. fb_appointmentId f = apt_id appointment \<and> fb_patientId f = u)
               (db_feedback db) of
          None \<Rightarrow> feedbacksData
        | Some feedbackDoc \<Rightarrow> feedbacksData(apt_id appointment \<mapsto> feedbackDoc))"

definition fetchAppointments :: "User \<Rightarrow> Db \<Rightarrow> PatientPage" where
  "fetchAppointments currentUser db =
     (let appointmentsList =
            orderBy_createdAt_desc
              (filter (\<lambda>a. patientId a = uid currentUser) (db_appointments db));
          completedAppointments = filter (\<lambda>apt. status apt = Completed) appointmentsList
      in \<lparr>pt_currentUser = currentUser,
          pt_appointments = appointmentsList,
          pt_prescriptions = fetchPrescriptions db completedAppointments Map.empty,
          feedbacks = fetchFeedbacks (uid currentUser) db completedAppointments Map.empty,
          showFeedbackModal = None,
          feedbackForm = initialFeedbackForm\<rparr>)"

text \<open>
  \<open>handleSubmitFeedback\<close>: \<open>!feedbackForm.rating\<close> holds for the rating 0; the stored
  comment is \<open>feedbackForm.comment || null\<close>, the page keeps the comment as typed.
\<close>

definition handleSubmitFeedback ::
  "int \<Rightarrow> string \<Rightarrow> string \<Rightarrow> string \<Rightarrow> PatientPage \<Rightarrow> Db \<Rightarrow> toast \<times> PatientPage \<times> Db" where
  "handleSubmitFeedback now newId appointmentId docId page db =
     (if ff_rating (feedbackForm page) = 0
      then (toast_error ''Please provide a rating'', page, db)
      else if length (ff_comment (feedbackForm page)) > 150
      then (toast_error ''Comment must be 150 characters or less'', page, db)
      else
        (toast_success ''Feedback submitted successfully!'',
         page\<lparr>feedbacks := (feedbacks page)(appointmentId \<mapsto>
                  \<lparr>fb_id = ''temp'',
                   fb_appointmentId = appointmentId,
                   fb_patientId = uid (pt_currentUser page),
                   fb_doctorId = docId,
                   rating = ff_rating (feedbackForm page),
                   comment = Some (ff_comment (feedbackForm page)),
                   fb_createdAt = now\<rparr>),
              showFeedbackModal := None,
              feedbackForm := initialFeedbackForm\<rparr>,
         db\<lparr>db_feedback := db_feedback db @
              [\<lparr>fb_id = newId,
                fb_appointmentId = appointmentId,
                fb_patientId = uid (pt_currentUser page),
                fb_doctorId = docId,
                rating = ff_rating (feedbackForm page),
                comment = (if ff_comment (feedbackForm page) = [] then None
                           else Some (ff_comment (feedbackForm page))),
                fb_createdAt = now\<rparr>]\<rparr>))"

text \<open>
  The Leave Feedback button of lines 378-405 opens the modal for an appointment of the
  page's list that the page shows as completed, with a doctor and without feedback.
\<close>

definition leaveFeedbackButton :: "PatientPage \<Rightarrow> Appointment \<Rightarrow> bool" where
  "leaveFeedbackButton page appointment =
     (appointment \<in> set (pt_appointments page) \<and> status appointment = Completed \<and>
      doctorId appointment \<noteq> None \<and> doctorId appointment \<noteq> Some [] \<and>
      feedbacks page (apt_id appointment) = None)"

definition clickLeaveFeedback :: "Appointment \<Rightarrow> PatientPage \<Rightarrow> PatientPage option" where
  "clickLeaveFeedback appointment page =
     (if leaveFeedbackButton page appointment
      then Some (page\<lparr>showFeedbackModal := Some (apt_id appointment)\<rparr>)
      else None)"

text \<open>The stars of the modal call \<open>onRate(star)\<close> for a star of \<open>[1, 2, 3, 4, 5]\<close>.\<close>

definition clickStar :: "int \<Rightarrow> PatientPage \<Rightarrow> PatientPage option" where
  "clickStar star page =
     (if star \<in> set [1, 2, 3, 4, 5]
      then Some (page\<lparr>feedbackForm := (feedbackForm page)\<lparr>ff_rating := star\<rparr>\<rparr>)
      else None)"

text \<open>
  The modal's Submit Feedback button (lines 450-461): it looks the appointment up in the
  page's list and calls \<open>handleSubmitFeedback\<close> when that appointment has a doctor.
  \<open>None\<close>: no modal, or the click does nothing.
\<close>

definition clickSubmitFeedback ::
  "int \<Rightarrow> string \<Rightarrow> PatientPage \<Rightarrow> Db \<Rightarrow> (toast \<times> PatientPage \<times> Db) option" where
  "clickSubmitFeedback now newId page db =
     (case showFeedbackModal page of
        None \<Rightarrow> None
      | Some appointmentId \<Rightarrow>
          (case find (\<lambda>apt. apt_id apt = appointmentId) (pt_appointments page) of
             None \<Rightarrow> None
           | Some appointment \<Rightarrow>
               (case doctorId appointment of
                  None \<Rightarrow> None
                | Some docId \<Rightarrow>
                    if docId = [] then None
                    else Some (handleSubmitFeedback now newId appointmentId docId page db))))"

section \<open>Dashboard.tsx and Profile.tsx\<close>

text \<open>
  The statistics the two pages compute; the lists they keep for display only (the five
  most recent appointments and feedbacks) are left out. The average rating is a JavaScript
  number: either the literal 0 the code starts from, or the result of the division
  \<open>totalRating / feedbacks.length\<close>, an IEEE double, which is kept as the division of its
  two operands and not evaluated. The ratings are integers, whose sum is exact.
\<close>

datatype js_number = js_zero | js_divide int nat

definition totalRating :: "Feedback list \<Rightarrow> int" where
  "totalRating fbs = foldl (\<lambda>sum feedback. sum + rating feedback) 0 fbs"

definition feedbackQuery :: "string \<Rightarrow> Db \<Rightarrow> Feedback list" where
  "feedbackQuery u db = filter (\<lambda>f. fb_doctorId f = u) (db_feedback db)"

definition roleAppointments :: "User \<Rightarrow> Db \<Rightarrow> Appointment list" where
  "roleAppointments currentUser db =
     (if role currentUser = role_patient
      then filter (\<lambda>a. patientId a = uid currentUser) (db_appointments db)
      else filter (\<lambda>a. doctorId a = Some (uid currentUser)) (db_appointments db))"

record DashboardStats =
  ds_totalAppointments :: nat
  ds_pendingAppointments :: nat
  ds_completedAppointments :: nat
  ds_averageRating :: js_number

definition fetchDashboardData :: "User \<Rightarrow> Db \<Rightarrow> DashboardStats" where
  "fetchDashboardData currentUser db =
     (let appointments = orderBy_createdAt_desc (roleAppointments currentUser db);
          totalAppointments = length appointments;
          pendingAppointments = length (filter (\<lambda>apt. status apt = Pending) appointments);
          completedAppointments = length (filter (\<lambda>apt. status apt = Completed) appointments);
          averageRating =
            (if role currentUser = role_doctor \<and> completedAppointments > 0
             then (let fbs = feedbackQuery (uid currentUser) db
                   in if length fbs > 0
                      then js_divide (totalRating fbs) (length fbs)
                      else js_zero)
             else js_zero)
      in \<lparr>ds_totalAppointments = totalAppointments,
          ds_pendingAppointments = pendingAppointments,
          ds_completedAppointments = completedAppointments,
          ds_averageRating = averageRating\<rparr>)"

record ProfileStats =
  ps_totalAppointments :: nat
  ps_completedAppointments :: nat
  ps_averageRating :: js_number
  ps_totalFeedbacks :: nat

definition fetchProfileData :: "User \<Rightarrow> Db \<Rightarrow> ProfileStats" where
  "fetchProfileData currentUser db =
     (let appointments = roleAppointments currentUser db;
          totalAppointments = length appointments;
          completedAppointments = length (filter (\<lambda>apt. status apt = Completed) appointments)
      in if role currentUser = role_doctor
         then (let fbs = feedbackQuery (uid currentUser) db
               in \<lparr>ps_totalAppointments = totalAppointments,
                   ps_completedAppointments = completedAppointments,
                   ps_averageRating =
                     (if length fbs > 0
                      then js_divide (totalRating fbs) (length fbs)
                      else js_zero),
                   ps_totalFeedbacks = length fbs\<rparr>)
         else \<lparr>ps_totalAppointments = totalAppointments,
               ps_completedAppointments = completedAppointments,
               ps_averageRating = js_zero,
               ps_totalFeedbacks = 0\<rparr>)"

section \<open>The prescription and feedback forms\<close>

definition handleAddMedicine :: "DoctorPage \<Rightarrow> DoctorPage" where
  "handleAddMedicine page =
     page\<lparr>prescriptionForm :=
            prescriptionForm page @ [\<lparr>med_name = [], dosage = [], frequency = []\<rparr>]\<rparr>"

text \<open>\<open>medicines.filter((_, i) => i !== index)\<close>\<close>

definition remove_index :: "nat \<Rightarrow> 'a list \<Rightarrow> 'a list" where
  "remove_index i xs = take i xs @ drop (Suc i) xs"

definition handleRemoveMedicine :: "nat \<Rightarrow> DoctorPage \<Rightarrow> DoctorPage" where
  "handleRemoveMedicine i page =
     (if length (prescriptionForm page) > 1
      then page\<lparr>prescriptionForm := remove_index i (prescriptionForm page)\<rparr>
      else page)"

datatype medicine_field = field_name | field_dosage | field_frequency

fun set_medicine_field :: "medicine_field \<Rightarrow> string \<Rightarrow> Medicine \<Rightarrow> Medicine" where
  "set_medicine_field field_name v medicine = medicine\<lparr>med_name := v\<rparr>"
| "set_medicine_field field_dosage v medicine = medicine\<lparr>dosage := v\<rparr>"
| "set_medicine_field field_frequency v medicine = medicine\<lparr>frequency := v\<rparr>"

definition handleMedicineChange ::
  "nat \<Rightarrow> medicine_field \<Rightarrow> string \<Rightarrow> DoctorPage \<Rightarrow> DoctorPage" where
  "handleMedicineChange i field v page =
     page\<lparr>prescriptionForm :=
            map (\<lambda>(j, medicine). if j = i then set_medicine_field field v medicine else medicine)
              (enumerate 0 (prescriptionForm page))\<rparr>"

definition cancelPrescription :: "DoctorPage \<Rightarrow> DoctorPage" where
  "cancelPrescription page =
     page\<lparr>showPrescriptionModal := None, prescriptionForm := initialPrescriptionForm\<rparr>"

definition cancelFeedback :: "PatientPage \<Rightarrow> PatientPage" where
  "cancelFeedback page = page\<lparr>showFeedbackModal := None, feedbackForm := initialFeedbackForm\<rparr>"

text \<open>The comment box has \<open>maxLength={150}\<close>.\<close>

definition changeComment :: "string \<Rightarrow> PatientPage \<Rightarrow> PatientPage option" where
  "changeComment c page =
     (if length c \<le> 150
      then Some (page\<lparr>feedbackForm := (feedbackForm page)\<lparr>ff_comment := c\<rparr>\<rparr>)
      else None)"

section \<open>The portal as a transition system\<close>

text \<open>
  The store and the pages that are open on it. Each user event runs one handler to its
  end; an event that the page does not offer is not a step. An event names the page by its
  position among the open pages and, for a button rendered per appointment, the appointment
  by its position in the page's list. Pages are opened by users of
  the role their route requires (App.tsx); the store assigns an unused id to every added
  document. \<open>toasts\<close> records the toasts shown so far.
\<close>

record Sys =
  sys_db :: Db
  pendingPages :: "(User \<times> Appointment list) list"
  doctorPages :: "DoctorPage list"
  patientPages :: "PatientPage list"
  toasts :: "toast list"

definition initialSys :: Sys where
  "initialSys = \<lparr>sys_db = emptyDb, pendingPages = [], doctorPages = [], patientPages = [],
                 toasts = []\<rparr>"

datatype event =
    ev_book TimeZone int string User "Doctor list" FormData
  | ev_open_pending User
  | ev_accept nat int string
  | ev_open_doctor User
  | ev_status nat int nat
  | ev_add_prescription nat nat
  | ev_add_medicine nat
  | ev_remove_medicine nat nat
  | ev_medicine_change nat nat medicine_field string
  | ev_submit_prescription nat int string
  | ev_cancel_prescription nat
  | ev_open_patient User
  | ev_leave_feedback nat nat
  | ev_star nat int
  | ev_comment nat string
  | ev_submit_feedback nat int string
  | ev_cancel_feedback nat

definition set_doctorPage :: "nat \<Rightarrow> DoctorPage \<Rightarrow> Sys \<Rightarrow> Sys" where
  "set_doctorPage i page s = s\<lparr>doctorPages := (doctorPages s)[i := page]\<rparr>"

definition set_patientPage :: "nat \<Rightarrow> PatientPage \<Rightarrow> Sys \<Rightarrow> Sys" where
  "set_patientPage i page s = s\<lparr>patientPages := (patientPages s)[i := page]\<rparr>"

fun step :: "Sys \<Rightarrow> event \<Rightarrow> Sys option" where
  "step s (ev_book zone now newId u doctors formData) =
     (if role u = role_patient \<and> newId \<notin> set (map apt_id (db_appointments (sys_db s)))
      then (case handleSubmit zone now newId u doctors formData (sys_db s) of
              (t, formData', db') \<Rightarrow>
                Some (s\<lparr>sys_db := db',
                        toasts := toasts s @ (case t of None \<Rightarrow> [] | Some shown \<Rightarrow> [shown])\<rparr>))
      else None)"
| "step s (ev_open_pending u) =
     (if role u = role_doctor
      then Some (s\<lparr>pendingPages :=
                     pendingPages s @ [(u, fetchPendingAppointments (sys_db s))]\<rparr>)
      else None)"
| "step s (ev_accept i now appointmentId) =
     (if i < length (pendingPages s)
      then (case pendingPages s ! i of
              (u, appointments) \<Rightarrow>
                if acceptButton appointments appointmentId
                then (case handleAcceptAppointment now appointmentId u appointments (sys_db s) of
                        (t, appointments', db') \<Rightarrow>
                          Some (s\<lparr>sys_db := db',
                                  pendingPages := (pendingPages s)[i := (u, appointments')],
                                  toasts := toasts s @ [t]\<rparr>))
                else None)
      else None)"
| "step s (ev_open_doctor u) =
     (if role u = role_doctor
      then Some (s\<lparr>doctorPages := doctorPages s @ [fetchMyAppointments u (sys_db s)]\<rparr>)
      else None)"
| "step s (ev_status i now k) =
     (if i < length (doctorPages s) \<and> k < length (dp_appointments (doctorPages s ! i))
      then (case clickStatusButton now (dp_appointments (doctorPages s ! i) ! k)
                   (doctorPages s ! i) (sys_db s) of
              None \<Rightarrow> None
            | Some (t, page', db') \<Rightarrow>
                Some (set_doctorPage i page' (s\<lparr>sys_db := db', toasts := toasts s @ [t]\<rparr>)))
      else None)"
| "step s (ev_add_prescription i k) =
     (if i < length (doctorPages s) \<and> k < length (dp_appointments (doctorPages s ! i))
      then map_option (\<lambda>page'. set_doctorPage i page' s)
             (clickAddPrescription (dp_appointments (doctorPages s ! i) ! k)
                (doctorPages s ! i))
      else None)"
| "step s (ev_add_medicine i) =
     (if i < length (doctorPages s) \<and> showPrescriptionModal (doctorPages s ! i) \<noteq> None
      then Some (set_doctorPage i (handleAddMedicine (doctorPages s ! i)) s)
      else None)"
| "step s (ev_remove_medicine i k) =
     (if i < length (doctorPages s) \<and> showPrescriptionModal (doctorPages s ! i) \<noteq> None \<and>
         k < length (prescriptionForm (doctorPages s ! i))
      then Some (set_doctorPage i (handleRemoveMedicine k (doctorPages s ! i)) s)
      else None)"
| "step s (ev_medicine_change i k field v) =
     (if i < length (doctorPages s) \<and> showPrescriptionModal (doctorPages s ! i) \<noteq> None \<and>
         k < length (prescriptionForm (doctorPages s ! i))
      then Some (set_doctorPage i (handleMedicineChange k field v (doctorPages s ! i)) s)
      else None)"
| "step s (ev_submit_prescription i now newId) =
     (if i < length (doctorPages s) \<and>
         newId \<notin> set (map rx_id (db_prescriptions (sys_db s)))
      then (case clickSubmitPrescription now newId (doctorPages s ! i) (sys_db s) of
              None \<Rightarrow> None
            | Some (t, page', db') \<Rightarrow>
                Some (set_doctorPage i page' (s\<lparr>sys_db := db', toasts := toasts s @ [t]\<rparr>)))
      else None)"
| "step s (ev_cancel_prescription i) =
     (if i < length (doctorPages s) \<and> showPrescriptionModal (doctorPages s ! i) \<noteq> None
      then Some (set_doctorPage i (cancelPrescription (doctorPages s ! i)) s)
      else None)"
| "step s (ev_open_patient u) =
     (if role u = role_patient
      then Some (s\<lparr>patientPages := patientPages s @ [fetchAppointments u (sys_db s)]\<rparr>)
      else None)"
| "step s (ev_leave_feedback i k) =
     (if i < length (patientPages s) \<and> k < length (pt_appointments (patientPages s ! i))
      then map_option (\<lambda>page'. set_patientPage i page' s)
             (clickLeaveFeedback (pt_appointments (patientPages s ! i) ! k)
                (patientPages s ! i))
      else None)"
| "step s (ev_star i star) =
     (if i < length (patientPages s) \<and> showFeedbackModal (patientPages s ! i) \<noteq> None
      then map_option (\<lambda>page'. set_patientPage i page' s) (clickStar star (patientPages s ! i))
      else None)"
| "step s (ev_comment i c) =
     (if i < length (patientPages s) \<and> showFeedbackModal (patientPages s ! i) \<noteq> None
      then map_option (\<lambda>page'. set_patientPage i page' s) (changeComment c (patientPages s ! i))
      else None)"
| "step s (ev_submit_feedback i now newId) =
     (if i < length (patientPages s) \<and> newId \<notin> set (map fb_id (db_feedback (sys_db s)))
      then (case clickSubmitFeedback now newId (patientPages s ! i) (sys_db s) of
              None \<Rightarrow> None
            | Some (t, page', db') \<Rightarrow>
                Some (set_patientPage i page' (s\<lparr>sys_db := db', toasts := toasts s @ [t]\<rparr>)))
      else None)"
| "step s (ev_cancel_feedback i) =
     (if i < length (patientPages s) \<and> showFeedbackModal (patientPages s ! i) \<noteq> None
      then Some (set_patientPage i (cancelFeedback (patientPages s ! i)) s)
      else None)"

fun run :: "Sys \<Rightarrow> event list \<Rightarrow> Sys option" where
  "run s [] = Some s"
| "run s (e # es) = (case step s e of None \<Rightarrow> None | Some s' \<Rightarrow> run s' es)"

text \<open>What a run from the empty store leaves behind, for reading traces.\<close>

definition status_after :: "event list \<Rightarrow> string \<Rightarrow> status option" where
  "status_after es i =
     (case run initialSys es of None \<Rightarrow> None | Some s \<Rightarrow> status_of (sys_db s) i)"

definition doctorId_after :: "event list \<Rightarrow> string \<Rightarrow> string option option" where
  "doctorId_after es i =
     (case run initialSys es of None \<Rightarrow> None | Some s \<Rightarrow> doctorId_of (sys_db s) i)"

definition toasts_after :: "event list \<Rightarrow> toast list option" where
  "toasts_after es = map_option toasts (run initialSys es)"

definition runs :: "event list \<Rightarrow> bool" where
  "runs es = (case run initialSys es of None \<Rightarrow> False | Some s \<Rightarrow> True)"

text \<open>The doctor whose PendingAppointments page is the p-th open one, after a run.\<close>

definition accepting_doctor :: "event list \<Rightarrow> nat \<Rightarrow> string option" where
  "accepting_doctor es p =
     (case run initialSys es of
        None \<Rightarrow> None
      | Some s \<Rightarrow>
          if p < length (pendingPages s) then Some (uid (fst (pendingPages s ! p))) else None)"

text \<open>The ids of the appointments its list holds, after a run.\<close>

definition offered_after :: "event list \<Rightarrow> nat \<Rightarrow> string list" where
  "offered_after es p =
     (case run initialSys es of
        None \<Rightarrow> []
      | Some s \<Rightarrow> if p < length (pendingPages s) then map apt_id (snd (pendingPages s ! p)) else [])"


definition store_after :: "event list \<Rightarrow> Db" where
  "store_after es = (case run initialSys es of None \<Rightarrow> emptyDb | Some s \<Rightarrow> sys_db s)"

text \<open>The position of a status in the order pending, confirmed, in-progress, completed.\<close>

fun status_rank :: "status \<Rightarrow> nat" where
  "status_rank Pending = 0"
| "status_rank Confirmed = 1"
| "status_rank InProgress = 2"
| "status_rank Completed = 3"

subsection \<open>Invariants of the store\<close>

text \<open>The ids of the appointments shown on the open DoctorAppointments pages.\<close>

definition viewed :: "Sys \<Rightarrow> string set" where
  "viewed s = (\<Union>p \<in> set (doctorPages s). apt_id ` set (dp_appointments p))"

definition claimed_ids :: "Db \<Rightarrow> string set" where
  "claimed_ids db = apt_id ` {a \<in> set (db_appointments db). doctorId a \<noteq> None}"

definition store_inv :: "Sys \<Rightarrow> bool" where
  "store_inv s =
     (distinct (map apt_id (db_appointments (sys_db s))) \<and>
      (\<forall>a \<in> set (db_appointments (sys_db s)). (doctorId a = None) = (status a = Pending)) \<and>
      viewed s \<subseteq> claimed_ids (sys_db s))"

text \<open>What a step does to the appointments collection.\<close>

datatype effect =
    eff_none
  | eff_add Appointment
  | eff_claim string int User
  | eff_status string int status

fun apply_effect :: "effect \<Rightarrow> Appointment list \<Rightarrow> Appointment list" where
  "apply_effect eff_none xs = xs"
| "apply_effect (eff_add a) xs = xs @ [a]"
| "apply_effect (eff_claim i now u) xs =
     map (\<lambda>a. if apt_id a = i
              then a\<lparr>status := Confirmed, doctorId := Some (uid u),
                     doctorName := Some (name u), updatedAt := now\<rparr>
              else a) xs"
| "apply_effect (eff_status i now ns) xs =
     map (\<lambda>a. if apt_id a = i then a\<lparr>status := ns, updatedAt := now\<rparr> else a) xs"

fun effect_ok :: "Sys \<Rightarrow> effect \<Rightarrow> bool" where
  "effect_ok s eff_none = True"
| "effect_ok s (eff_add a) =
     (apt_id a \<notin> apt_id ` set (db_appointments (sys_db s)) \<and> status a = Pending \<and>
      doctorId a = None)"
| "effect_ok s (eff_claim i now u) = True"
| "effect_ok s (eff_status i now ns) = (i \<in> viewed s \<and> ns \<noteq> Pending)"

text \<open>Only Accept claims.\<close>

definition effect_of_event :: "event \<Rightarrow> effect \<Rightarrow> bool" where
  "effect_of_event e eff =
     (case eff of
        eff_claim i now u \<Rightarrow> (case e of ev_accept p now' i' \<Rightarrow> i' = i | _ \<Rightarrow> False)
      | _ \<Rightarrow> True)"




section \<open>Scenarios\<close>

text \<open>
  Two doctors and a patient; \<open>utc d h m\<close> is the instant h:m UTC on the date d. The
  scenarios below are runs of the portal from the empty store.
\<close>

definition doctor_d1 :: User where
  "doctor_d1 = \<lparr>uid = ''d1'', email = ''d1@meditrack.local'', name = ''Dee'', role = role_doctor\<rparr>"

definition doctor_d2 :: User where
  "doctor_d2 = \<lparr>uid = ''d2'', email = ''d2@meditrack.local'', name = ''Eli'', role = role_doctor\<rparr>"

definition patient_p1 :: User where
  "patient_p1 = \<lparr>uid = ''p1'', email = ''p1@meditrack.local'', name = ''Pat'', role = role_patient\<rparr>"

definition doctors_list :: "Doctor list" where
  "doctors_list =
     [\<lparr>d_uid = ''d1'', d_name = ''Dee'', d_email = ''d1@meditrack.local'', specialization = None\<rparr>,
      \<lparr>d_uid = ''d2'', d_name = ''Eli'', d_email = ''d2@meditrack.local'', specialization = None\<rparr>]"

definition june :: "int \<Rightarrow> CalDate" where
  "june d = \<lparr>year = 2025, month = 6, day = d\<rparr>"

definition utc :: "CalDate \<Rightarrow> int \<Rightarrow> int \<Rightarrow> int" where
  "utc d h m = new_Date d + h * 3600000 + m * 60000"

definition booking_form :: "CalDate \<Rightarrow> string \<Rightarrow> FormData" where
  "booking_form d t =
     \<lparr>f_preferredDoctorId = ''d1'', f_date = Some d, f_time = t, f_healthConcern = ''headache''\<rparr>"

text \<open>The patient books a1; both doctors open the pending list; d1 accepts a1.\<close>

definition claimed_by_d1 :: "event list" where
  "claimed_by_d1 =
     [ev_book (fixed_zone 0) (utc (june 10) 8 0) ''a1'' patient_p1 doctors_list (booking_form (june 10) ''09:00''),
      ev_open_pending doctor_d1,
      ev_open_pending doctor_d2,
      ev_accept 0 (utc (june 10) 8 5) ''a1'']"

text \<open>Then d2 presses Accept on the list that was loaded before d1 accepted.\<close>

definition second_claim :: "event list" where
  "second_claim = claimed_by_d1 @ [ev_accept 1 (utc (june 10) 8 6) ''a1'']"

text \<open>d1 opens My Appointments in two tabs and completes a1 in the first.\<close>

definition completed_in_first_tab :: "event list" where
  "completed_in_first_tab =
     claimed_by_d1 @
     [ev_open_doctor doctor_d1,
      ev_open_doctor doctor_d1,
      ev_status 0 (utc (june 10) 9 0) 0,
      ev_status 0 (utc (june 10) 9 30) 0]"

text \<open>Then d1 presses Start Appointment in the second tab, which still shows confirmed.\<close>

definition advance_in_second_tab :: "event list" where
  "advance_in_second_tab = completed_in_first_tab @ [ev_status 1 (utc (june 10) 9 31) 0]"

text \<open>d1 starts a1; then d2 accepts it from the stale pending list.\<close>

definition started_by_d1 :: "event list" where
  "started_by_d1 =
     claimed_by_d1 @ [ev_open_doctor doctor_d1, ev_status 0 (utc (june 10) 9 0) 0]"

definition claim_after_start :: "event list" where
  "claim_after_start = started_by_d1 @ [ev_accept 1 (utc (june 10) 9 1) ''a1'']"

text \<open>
  d1 completes a1, d2 accepts it from the stale pending list, and d1 adds a prescription
  from the page that still shows a1 as completed.
\<close>

definition reclaimed_after_completion :: "event list" where
  "reclaimed_after_completion =
     claimed_by_d1 @
     [ev_open_doctor doctor_d1,
      ev_status 0 (utc (june 10) 9 0) 0,
      ev_status 0 (utc (june 10) 9 30) 0,
      ev_accept 1 (utc (june 10) 9 31) ''a1'']"

definition prescription_after_reclaim :: "event list" where
  "prescription_after_reclaim =
     reclaimed_after_completion @
     [ev_add_prescription 0 0,
      ev_medicine_change 0 0 field_name ''Paracetamol'',
      ev_medicine_change 0 0 field_dosage ''500mg'',
      ev_medicine_change 0 0 field_frequency ''3x daily'',
      ev_submit_prescription 0 (utc (june 10) 9 40) ''rx1'']"

text \<open>a1 is completed; the patient opens My Appointments in two tabs and rates in both.\<close>

definition completed_by_d1 :: "event list" where
  "completed_by_d1 =
     claimed_by_d1 @
     [ev_open_doctor doctor_d1,
      ev_status 0 (utc (june 10) 9 0) 0,
      ev_status 0 (utc (june 10) 9 30) 0]"

definition feedback_twice :: "event list" where
  "feedback_twice =
     completed_by_d1 @
     [ev_open_patient patient_p1,
      ev_open_patient patient_p1,
      ev_leave_feedback 0 0,
      ev_submit_feedback 0 (utc (june 10) 10 0) ''f1'',
      ev_leave_feedback 1 0,
      ev_comment 1 ''Great'',
      ev_submit_feedback 1 (utc (june 10) 10 1) ''f2'']"

text \<open>
  a1 is completed in the first of d1's tabs, the patient rates it 4, and d1 presses Start
  Appointment in the second tab, which writes in-progress.
\<close>

definition rated_then_restarted :: "event list" where
  "rated_then_restarted =
     completed_in_first_tab @
     [ev_open_patient patient_p1,
      ev_leave_feedback 0 0,
      ev_star 0 4,
      ev_submit_feedback 0 (utc (june 10) 10 0) ''f1'',
      ev_status 1 (utc (june 10) 10 5) 0]"

text \<open>Three bookings made on 10 June 2025 (UTC), each for 17 June.\<close>

definition three_bookings_for_next_week :: "event list" where
  "three_bookings_for_next_week =
     [ev_book (fixed_zone 0) (utc (june 10) 8 0) ''a1'' patient_p1 doctors_list (booking_form (june 17) ''09:00''),
      ev_book (fixed_zone 0) (utc (june 10) 8 10) ''a2'' patient_p1 doctors_list (booking_form (june 17) ''09:30''),
      ev_book (fixed_zone 0) (utc (june 10) 8 20) ''a3'' patient_p1 doctors_list (booking_form (june 17) ''10:00'')]"

text \<open>Three bookings made on 10 June 2025 (UTC), each for 10 June.\<close>

definition three_bookings_for_today :: "event list" where
  "three_bookings_for_today =
     [ev_book (fixed_zone 0) (utc (june 10) 8 0) ''a1'' patient_p1 doctors_list (booking_form (june 10) ''09:00''),
      ev_book (fixed_zone 0) (utc (june 10) 8 10) ''a2'' patient_p1 doctors_list (booking_form (june 10) ''09:30''),
      ev_book (fixed_zone 0) (utc (june 10) 8 20) ''a3'' patient_p1 doctors_list (booking_form (june 10) ''10:00'')]"

text \<open>
  A browser four hours west of UTC. Two bookings are made at noon local time on 16 June
  (16:00 UTC) for 20 June, a third at 14:00 local time on 16 June for 17 June.
\<close>

definition west_offset :: int where
  "west_offset = - 4 * 3600000"

definition west :: TimeZone where
  "west = fixed_zone west_offset"

definition bookings_west_of_utc :: "event list" where
  "bookings_west_of_utc =
     [ev_book west (utc (june 16) 16 0) ''a1'' patient_p1 doctors_list (booking_form (june 20) ''09:00''),
      ev_book west (utc (june 16) 16 10) ''a2'' patient_p1 doctors_list (booking_form (june 20) ''09:30''),
      ev_book west (utc (june 16) 18 0) ''a3'' patient_p1 doctors_list (booking_form (june 17) ''10:00'')]"

text \<open>A booking for the last slot the time select offers.\<close>

definition booking_at_last_slot :: "event list" where
  "booking_at_last_slot =
     [ev_book (fixed_zone 0) (utc (june 10) 8 0) ''a1'' patient_p1 doctors_list
        (booking_form (june 10) (last generateTimeSlots))]"

text \<open>d1 has a1 on My Appointments, loaded after the claim.\<close>

definition shown_to_d1 :: "event list" where
  "shown_to_d1 = claimed_by_d1 @ [ev_open_doctor doctor_d1]"

definition page_of_d1 :: DoctorPage where
  "page_of_d1 = fetchMyAppointments doctor_d1 (store_after claimed_by_d1)"

text \<open>The store after the booking alone, and the pending list loaded from it.\<close>

definition booked :: "event list" where
  "booked = [ev_book (fixed_zone 0) (utc (june 10) 8 0) ''a1'' patient_p1 doctors_list
               (booking_form (june 10) ''09:00'')]"

text \<open>d1's page loaded after a1 was completed, and a filled prescription form.\<close>

definition page_done :: DoctorPage where
  "page_done = fetchMyAppointments doctor_d1 (store_after completed_by_d1)"

definition filled_form :: "Medicine list" where
  "filled_form = [\<lparr>med_name = ''Paracetamol'', dosage = ''500mg'', frequency = ''3x daily''\<rparr>]"

text \<open>The patient's page loaded after a1 was completed.\<close>

definition patient_page :: PatientPage where
  "patient_page = fetchAppointments patient_p1 (store_after completed_by_d1)"




text \<open>
  Central European time around the change of the clocks on 30 March 2025: one hour ahead
  of UTC until 01:00 UTC (02:00 local time), two hours from then on.
\<close>

definition berlin :: TimeZone where
  "berlin =
     \<lparr>utc_offset =
        (\<lambda>t. if t < utc \<lparr>year = 2025, month = 3, day = 30\<rparr> 1 0 then 3600000 else 7200000),
      local_offset =
        (\<lambda>l. if l < utc \<lparr>year = 2025, month = 3, day = 30\<rparr> 2 0 then 3600000 else 7200000)\<rparr>"

section \<open>Properties of the store operations\<close>

lemma set_orderBy [simp]: "set (orderBy_createdAt_desc xs) = set xs"
  by (simp add: orderBy_createdAt_desc_def)

lemma map_patch_absent:
  "i \<notin> apt_id ` set xs \<Longrightarrow> map (\<lambda>a. if apt_id a = i then f a else a) xs = xs"
  by (induction xs) auto

lemma map_patch_ids:
  "(\<And>a. apt_id (f a) = apt_id a) \<Longrightarrow>
   map apt_id (map (\<lambda>a. if apt_id a = i then f a else a) xs) = map apt_id xs"
  by (induction xs) auto

lemma find_map_patch:
  assumes "\<And>a. apt_id (f a) = apt_id a"
  shows "find (\<lambda>a. apt_id a = j) (map (\<lambda>a. if apt_id a = i then f a else a) xs) =
         map_option (if j = i then f else (\<lambda>a. a)) (find (\<lambda>a. apt_id a = j) xs)"
  using assms by (induction xs) auto

lemma find_append_found:
  "find P xs = Some a \<Longrightarrow> find P (xs @ ys) = Some a"
  by (induction xs) (auto split: if_splits)

lemma find_in_set: "find P xs = Some a \<Longrightarrow> a \<in> set xs \<and> P a"
  by (induction xs) (auto split: if_splits)

lemma find_None_iff_not_in: "(find (\<lambda>a. apt_id a = i) xs = None) = (i \<notin> apt_id ` set xs)"
  by (induction xs) auto

lemma distinct_ids_eq:
  assumes "distinct (map apt_id xs)" "a \<in> set xs" "b \<in> set xs" "apt_id a = apt_id b"
  shows "a = b"
  using assms by (meson distinct_map inj_onD)

lemma run_append:
  "run s (es @ fs) = (case run s es of None \<Rightarrow> None | Some s' \<Rightarrow> run s' fs)"
  by (induction es arbitrary: s) (auto split: option.splits)

lemma run_snoc:
  "run s (es @ [e]) = (case run s es of None \<Rightarrow> None | Some s' \<Rightarrow> step s' e)"
  by (simp add: run_append split: option.splits)

lemma runs_Some: "runs es = (\<exists>s. run initialSys es = Some s)"
  by (auto simp: runs_def split: option.splits)

lemma find_other_id:
  assumes "\<And>a. apt_id (f a) = apt_id a" "j \<noteq> i"
  shows "find (\<lambda>a. apt_id a = j) (map (\<lambda>a. if apt_id a = i then f a else a) xs) =
         find (\<lambda>a. apt_id a = j) xs"
  using assms by (simp add: find_map_patch option.map_ident)

subsection \<open>What each handler does to the appointments\<close>

lemma handleSubmit_appointments:
  assumes "handleSubmit zone now newId u doctors f db = (t, f', db')"
  shows "db_appointments db' = db_appointments db \<or>
         (\<exists>a. db_appointments db' = db_appointments db @ [a] \<and> apt_id a = newId \<and>
              status a = Pending \<and> doctorId a = None)"
  using assms by (auto simp: handleSubmit_def Let_def split: if_splits option.splits)

lemma handleAccept_appointments:
  assumes "handleAcceptAppointment now i u apts db = (t, apts', db')"
  shows "db_appointments db' = apply_effect (eff_claim i now u) (db_appointments db)"
  using assms
  by (auto simp: handleAcceptAppointment_def updateDoc_appointments_def map_patch_absent
           split: if_splits option.splits)

lemma handleStatusUpdate_appointments:
  assumes "handleStatusUpdate now i ns page db = (t, page', db')"
  shows "db_appointments db' = apply_effect (eff_status i now ns) (db_appointments db)"
    and "map apt_id (dp_appointments page') = map apt_id (dp_appointments page)"
  using assms
  by (auto simp: handleStatusUpdate_def updateDoc_appointments_def map_patch_absent
           split: if_splits option.splits)

lemma getNextStatus_Some:
  "(getNextStatus st = Some ns) =
     (st = Confirmed \<and> ns = InProgress \<or> st = InProgress \<and> ns = Completed)"
  by (cases st) auto

lemma clickStatusButton_Some:
  assumes "clickStatusButton now v page db = Some r"
  shows "\<exists>ns. getNextStatus (status v) = Some ns \<and> v \<in> set (dp_appointments page) \<and>
              r = handleStatusUpdate now (apt_id v) ns page db"
  using assms by (auto simp: clickStatusButton_def split: if_splits option.splits)

lemma clickStatusButton_appointments:
  assumes "clickStatusButton now v page db = Some (t, page', db')"
  shows "\<exists>ns. ns \<noteq> Pending \<and> apt_id v \<in> apt_id ` set (dp_appointments page) \<and>
           db_appointments db' = apply_effect (eff_status (apt_id v) now ns) (db_appointments db)"
    and "map apt_id (dp_appointments page') = map apt_id (dp_appointments page)"
proof -
  from clickStatusButton_Some[OF assms] obtain ns where
    ns: "getNextStatus (status v) = Some ns" and v: "v \<in> set (dp_appointments page)" and
    h: "handleStatusUpdate now (apt_id v) ns page db = (t, page', db')"
    by auto
  from ns have "ns \<noteq> Pending" by (auto simp: getNextStatus_Some)
  with v handleStatusUpdate_appointments(1)[OF h]
  show "\<exists>ns. ns \<noteq> Pending \<and> apt_id v \<in> apt_id ` set (dp_appointments page) \<and>
           db_appointments db' = apply_effect (eff_status (apt_id v) now ns) (db_appointments db)"
    by blast
  show "map apt_id (dp_appointments page') = map apt_id (dp_appointments page)"
    by (rule handleStatusUpdate_appointments(2)[OF h])
qed

subsection \<open>The effect of a step\<close>

lemma viewed_toasts [simp]: "viewed (s\<lparr>toasts := ts\<rparr>) = viewed s"
  by (simp add: viewed_def)

lemma viewed_sys_db [simp]: "viewed (s\<lparr>sys_db := db\<rparr>) = viewed s"
  by (simp add: viewed_def)

lemma set_doctorPage_db [simp]: "sys_db (set_doctorPage i p s) = sys_db s"
  by (simp add: set_doctorPage_def)

lemma set_patientPage_db [simp]: "sys_db (set_patientPage i p s) = sys_db s"
  by (simp add: set_patientPage_def)

lemma viewed_set_patientPage [simp]: "viewed (set_patientPage i p s) = viewed s"
  by (simp add: set_patientPage_def viewed_def)

lemma viewed_set_doctorPage:
  assumes "i < length (doctorPages s)"
    and "map apt_id (dp_appointments page') = map apt_id (dp_appointments (doctorPages s ! i))"
  shows "viewed (set_doctorPage i page' s) \<subseteq> viewed s"
proof
  fix x assume "x \<in> viewed (set_doctorPage i page' s)"
  then obtain p where p: "p \<in> set ((doctorPages s)[i := page'])"
    and x: "x \<in> apt_id ` set (dp_appointments p)"
    by (auto simp: viewed_def set_doctorPage_def)
  from p have "p = page' \<or> p \<in> set (doctorPages s)"
    using set_update_subset_insert[of "doctorPages s" i page'] by auto
  then show "x \<in> viewed s"
  proof
    assume "p = page'"
    with x have "x \<in> set (map apt_id (dp_appointments page'))" by simp
    with assms(2) have "x \<in> apt_id ` set (dp_appointments (doctorPages s ! i))" by simp
    with assms(1) show ?thesis unfolding viewed_def by (meson UN_I nth_mem)
  next
    assume "p \<in> set (doctorPages s)"
    with x show ?thesis unfolding viewed_def by blast
  qed
qed

text \<open>
  Every step changes the appointments by one effect; only Accept claims, and a status
  update touches an appointment that some open DoctorAppointments page shows.
\<close>

lemma step_effect:
  assumes "step s e = Some s'"
  shows "\<exists>eff. effect_ok s eff \<and> effect_of_event e eff \<and>
           db_appointments (sys_db s') = apply_effect eff (db_appointments (sys_db s)) \<and>
           viewed s' \<subseteq> viewed s \<union> (if eff = eff_none then claimed_ids (sys_db s) else {})"
proof (cases e)
  case (ev_book zone now newId u doctors f)
  with assms obtain t f' db' ts where
    h: "handleSubmit zone now newId u doctors f (sys_db s) = (t, f', db')"
    and s': "s' = s\<lparr>sys_db := db', toasts := ts\<rparr>"
    and fresh: "newId \<notin> apt_id ` set (db_appointments (sys_db s))"
    by (auto split: if_splits prod.splits)
  from handleSubmit_appointments[OF h] show ?thesis
  proof
    assume "db_appointments db' = db_appointments (sys_db s)"
    with s' show ?thesis by (intro exI[of _ eff_none]) (simp add: effect_of_event_def)
  next
    assume "\<exists>a. db_appointments db' = db_appointments (sys_db s) @ [a] \<and> apt_id a = newId \<and>
              status a = Pending \<and> doctorId a = None"
    then obtain a where "db_appointments db' = db_appointments (sys_db s) @ [a]"
      "apt_id a = newId" "status a = Pending" "doctorId a = None" by blast
    with s' fresh show ?thesis by (intro exI[of _ "eff_add a"]) (simp add: effect_of_event_def)
  qed
next
  case (ev_open_pending u)
  with assms show ?thesis
    by (intro exI[of _ eff_none]) (auto simp: viewed_def effect_of_event_def split: if_splits)
next
  case (ev_accept i now aid)
  with assms obtain u apts t apts' db' where
    h: "handleAcceptAppointment now aid u apts (sys_db s) = (t, apts', db')"
    and s': "s' = s\<lparr>sys_db := db', pendingPages := (pendingPages s)[i := (u, apts')],
                    toasts := toasts s @ [t]\<rparr>"
    by (auto split: if_splits prod.splits)
  from handleAccept_appointments[OF h] s' ev_accept show ?thesis
    by (intro exI[of _ "eff_claim aid now u"]) (simp add: viewed_def effect_of_event_def)
next
  case (ev_open_doctor u)
  with assms have s': "s' = s\<lparr>doctorPages := doctorPages s @ [fetchMyAppointments u (sys_db s)]\<rparr>"
    by (auto split: if_splits)
  have "apt_id ` set (dp_appointments (fetchMyAppointments u (sys_db s))) \<subseteq> claimed_ids (sys_db s)"
    by (auto simp: fetchMyAppointments_def Let_def claimed_ids_def)
  with s' show ?thesis
    by (intro exI[of _ eff_none]) (auto simp: viewed_def effect_of_event_def)
next
  case (ev_status i now k)
  let ?v = "dp_appointments (doctorPages s ! i) ! k"
  from ev_status assms obtain t page' db' where
    i: "i < length (doctorPages s)" and
    c: "clickStatusButton now ?v (doctorPages s ! i) (sys_db s) = Some (t, page', db')"
    and s': "s' = set_doctorPage i page' (s\<lparr>sys_db := db', toasts := toasts s @ [t]\<rparr>)"
    by (auto split: if_splits option.splits)
  from clickStatusButton_appointments(1)[OF c] obtain ns where ns: "ns \<noteq> Pending"
    and v: "apt_id ?v \<in> apt_id ` set (dp_appointments (doctorPages s ! i))"
    and db': "db_appointments db' =
                apply_effect (eff_status (apt_id ?v) now ns) (db_appointments (sys_db s))"
    by blast
  from v i have vw: "apt_id ?v \<in> viewed s"
    unfolding viewed_def by (meson UN_I nth_mem)
  have "viewed s' \<subseteq> viewed s"
    using viewed_set_doctorPage[of i "s\<lparr>sys_db := db', toasts := toasts s @ [t]\<rparr>" page']
      clickStatusButton_appointments(2)[OF c] i s' by simp
  with ns vw db' s' show ?thesis
    by (intro exI[of _ "eff_status (apt_id ?v) now ns"]) (auto simp: effect_of_event_def)
next
  case (ev_add_prescription i k)
  with assms show ?thesis
    by (intro exI[of _ eff_none])
       (auto simp: clickAddPrescription_def effect_of_event_def split: if_splits
             dest!: subsetD[OF viewed_set_doctorPage, rotated -1])
next
  case (ev_add_medicine i)
  with assms show ?thesis
    by (intro exI[of _ eff_none])
       (auto simp: handleAddMedicine_def effect_of_event_def split: if_splits
             dest!: subsetD[OF viewed_set_doctorPage, rotated -1])
next
  case (ev_remove_medicine i k)
  with assms show ?thesis
    by (intro exI[of _ eff_none])
       (auto simp: handleRemoveMedicine_def effect_of_event_def split: if_splits
             dest!: subsetD[OF viewed_set_doctorPage, rotated -1])
next
  case (ev_medicine_change i k f v)
  with assms show ?thesis
    by (intro exI[of _ eff_none])
       (auto simp: handleMedicineChange_def effect_of_event_def split: if_splits
             dest!: subsetD[OF viewed_set_doctorPage, rotated -1])
next
  case (ev_submit_prescription i now newId)
  with assms show ?thesis
    by (intro exI[of _ eff_none])
       (auto simp: clickSubmitPrescription_def handleSubmitPrescription_def Let_def
                   effect_of_event_def
             split: if_splits option.splits
             dest!: subsetD[OF viewed_set_doctorPage, rotated -1])
next
  case (ev_cancel_prescription i)
  with assms show ?thesis
    by (intro exI[of _ eff_none])
       (auto simp: cancelPrescription_def effect_of_event_def split: if_splits
             dest!: subsetD[OF viewed_set_doctorPage, rotated -1])
next
  case (ev_open_patient u)
  with assms show ?thesis
    by (intro exI[of _ eff_none]) (auto simp: viewed_def effect_of_event_def split: if_splits)
next
  case (ev_leave_feedback i k)
  with assms show ?thesis
    by (intro exI[of _ eff_none]) (auto simp: effect_of_event_def split: if_splits)
next
  case (ev_star i k)
  with assms show ?thesis
    by (intro exI[of _ eff_none]) (auto simp: effect_of_event_def split: if_splits)
next
  case (ev_comment i k)
  with assms show ?thesis
    by (intro exI[of _ eff_none]) (auto simp: effect_of_event_def split: if_splits)
next
  case (ev_submit_feedback i now newId)
  with assms show ?thesis
    by (intro exI[of _ eff_none])
       (auto simp: clickSubmitFeedback_def handleSubmitFeedback_def effect_of_event_def
             split: if_splits option.splits)
next
  case (ev_cancel_feedback i)
  with assms show ?thesis
    by (intro exI[of _ eff_none]) (auto simp: effect_of_event_def split: if_splits)
qed

subsection \<open>The store invariant\<close>

lemma claimed_ids_map:
  assumes "\<And>a. apt_id (f a) = apt_id a"
    and "\<And>a. doctorId a \<noteq> None \<Longrightarrow> doctorId (f a) \<noteq> None"
  shows "apt_id ` {a \<in> set xs. doctorId a \<noteq> None}
         \<subseteq> apt_id ` {a \<in> set (map (\<lambda>a. if apt_id a = i then f a else a) xs). doctorId a \<noteq> None}"
proof
  fix x assume "x \<in> apt_id ` {a \<in> set xs. doctorId a \<noteq> None}"
  then obtain a where a: "a \<in> set xs" "doctorId a \<noteq> None" "x = apt_id a" by blast
  let ?g = "\<lambda>a. if apt_id a = i then f a else a"
  have "?g a \<in> set (map ?g xs)" using a(1) by simp
  moreover have "doctorId (?g a) \<noteq> None" using a(2) assms(2) by simp
  moreover have "apt_id (?g a) = x" using a(3) assms(1) by simp
  ultimately show "x \<in> apt_id ` {a \<in> set (map ?g xs). doctorId a \<noteq> None}" by blast
qed

lemma store_inv_effect:
  assumes inv: "store_inv s"
    and ok: "effect_ok s eff"
    and db: "db_appointments (sys_db s') = apply_effect eff (db_appointments (sys_db s))"
    and vw: "viewed s' \<subseteq> viewed s \<union> (if eff = eff_none then claimed_ids (sys_db s) else {})"
  shows "store_inv s'"
proof -
  let ?xs = "db_appointments (sys_db s)"
  from inv have d: "distinct (map apt_id ?xs)"
    and iff: "\<And>a. a \<in> set ?xs \<Longrightarrow> (doctorId a = None) = (status a = Pending)"
    and cl: "viewed s \<subseteq> claimed_ids (sys_db s)"
    by (auto simp: store_inv_def)
  show ?thesis
  proof (cases eff)
    case eff_none
    with db vw cl inv show ?thesis by (auto simp: store_inv_def claimed_ids_def)
  next
    case (eff_add a)
    with ok db have a: "apt_id a \<notin> apt_id ` set ?xs" "status a = Pending" "doctorId a = None"
      and db': "db_appointments (sys_db s') = ?xs @ [a]" by auto
    from eff_add vw cl have "viewed s' \<subseteq> claimed_ids (sys_db s)" by auto
    also have "\<dots> \<subseteq> claimed_ids (sys_db s')" using db' by (auto simp: claimed_ids_def)
    finally show ?thesis using d iff a db' by (auto simp: store_inv_def)
  next
    case (eff_claim i now u)
    with db have db': "db_appointments (sys_db s') =
        map (\<lambda>a. if apt_id a = i
                 then a\<lparr>status := Confirmed, doctorId := Some (uid u),
                        doctorName := Some (name u), updatedAt := now\<rparr>
                 else a) ?xs" by simp
    have ids: "map apt_id (db_appointments (sys_db s')) = map apt_id ?xs"
      unfolding db' by (rule map_patch_ids) simp
    have "claimed_ids (sys_db s) \<subseteq> claimed_ids (sys_db s')"
      unfolding claimed_ids_def db' by (rule claimed_ids_map) simp_all
    with eff_claim vw cl have "viewed s' \<subseteq> claimed_ids (sys_db s')" by auto
    moreover have "\<forall>a \<in> set (db_appointments (sys_db s')). (doctorId a = None) = (status a = Pending)"
      unfolding db' using iff by auto
    ultimately show ?thesis using d ids by (simp add: store_inv_def)
  next
    case (eff_status i now ns)
    with ok db have i: "i \<in> viewed s" and ns: "ns \<noteq> Pending"
      and db': "db_appointments (sys_db s') =
          map (\<lambda>a. if apt_id a = i then a\<lparr>status := ns, updatedAt := now\<rparr> else a) ?xs"
      by auto
    have ids: "map apt_id (db_appointments (sys_db s')) = map apt_id ?xs"
      unfolding db' by (rule map_patch_ids) simp
    from i cl obtain b where b: "b \<in> set ?xs" "apt_id b = i" "doctorId b \<noteq> None"
      by (auto simp: claimed_ids_def)
    have patched: "\<And>a. a \<in> set ?xs \<Longrightarrow> apt_id a = i \<Longrightarrow> doctorId a \<noteq> None"
      using distinct_ids_eq[OF d _ b(1)] b by auto
    have "claimed_ids (sys_db s) \<subseteq> claimed_ids (sys_db s')"
      unfolding claimed_ids_def db' by (rule claimed_ids_map) simp_all
    with eff_status vw cl have "viewed s' \<subseteq> claimed_ids (sys_db s')" by auto
    moreover have "\<forall>a \<in> set (db_appointments (sys_db s')). (doctorId a = None) = (status a = Pending)"
      unfolding db' using iff ns patched by auto
    ultimately show ?thesis using d ids by (simp add: store_inv_def)
  qed
qed

lemma store_inv_step:
  assumes "store_inv s" "step s e = Some s'"
  shows "store_inv s'"
  using step_effect[OF assms(2)] store_inv_effect[OF assms(1)] by blast

lemma store_inv_run:
  assumes "store_inv s" "run s es = Some s'"
  shows "store_inv s'"
  using assms
  by (induction es arbitrary: s) (auto split: option.splits dest: store_inv_step)

lemma store_inv_initial: "store_inv initialSys"
  by (simp add: store_inv_def initialSys_def emptyDb_def viewed_def)

lemma store_inv_reachable: "run initialSys es = Some s \<Longrightarrow> store_inv s"
  using store_inv_run[OF store_inv_initial] by blast

subsection \<open>Looking an appointment up after an effect\<close>

lemma doctorId_of_effect:
  assumes "doctorId_of db j = Some (Some x)"
    and "db_appointments db' = apply_effect eff (db_appointments db)"
  shows "doctorId_of db' j =
           (case eff of eff_claim i now u \<Rightarrow> if i = j then Some (Some (uid u)) else Some (Some x)
            | _ \<Rightarrow> Some (Some x))"
proof (cases eff)
  case eff_none
  with assms show ?thesis by (simp add: doctorId_of_def)
next
  case (eff_add a)
  with assms show ?thesis
    by (auto simp: doctorId_of_def dest: find_append_found)
next
  case (eff_claim i now u)
  with assms show ?thesis
    by (auto simp: doctorId_of_def find_map_patch)
next
  case (eff_status i now ns)
  with assms show ?thesis
    by (auto simp: doctorId_of_def find_map_patch)
qed

lemma status_of_effect_claim:
  assumes "db_appointments db' = apply_effect (eff_claim i now u) (db_appointments db)"
  shows "status_of db' j = (if j = i then map_option (\<lambda>_. Confirmed) (status_of db j) else status_of db j)"
    and "doctorId_of db' j =
           (if j = i then map_option (\<lambda>_. Some (uid u)) (doctorId_of db j) else doctorId_of db j)"
  using assms
  by (auto simp: status_of_def doctorId_of_def find_map_patch option.map_comp comp_def
           split: option.splits)

lemma status_of_effect_status:
  assumes "db_appointments db' = apply_effect (eff_status i now ns) (db_appointments db)"
  shows "status_of db' j = (if j = i then map_option (\<lambda>_. ns) (status_of db j) else status_of db j)"
    and "doctorId_of db' j = doctorId_of db j"
  using assms
  by (auto simp: status_of_def doctorId_of_def find_map_patch option.map_comp comp_def
           split: option.splits)

subsection \<open>What an Accept needs and does\<close>

lemma step_accept_gate:
  assumes "step s (ev_accept p now j) = Some s'"
  shows "p < length (pendingPages s) \<and> acceptButton (snd (pendingPages s ! p)) j \<and>
         db_appointments (sys_db s') =
           apply_effect (eff_claim j now (fst (pendingPages s ! p))) (db_appointments (sys_db s))"
proof -
  from assms have p: "p < length (pendingPages s)" by (auto split: if_splits)
  obtain u apts where pg: "pendingPages s ! p = (u, apts)" by (cases "pendingPages s ! p")
  with assms p have b: "acceptButton apts j" by (auto split: if_splits)
  obtain t apts' db' where h: "handleAcceptAppointment now j u apts (sys_db s) = (t, apts', db')"
    by (cases "handleAcceptAppointment now j u apts (sys_db s)") auto
  with assms p pg b have "sys_db s' = db'" by auto
  with handleAccept_appointments[OF h] p pg b show ?thesis by simp
qed

section \<open>The time slots\<close>

text \<open>
  C8. The claim: the offered slots are exactly the half-hour slots from 09:00 to 17:00
  inclusive. The page's own text says "Available from 9:00 AM to 5:00 PM", but the loop
  of \<open>generateTimeSlots\<close> runs the half-hour loop for the hour 17 as well: the list it
  returns has eighteen slots and ends with 17:30, and a booking for 17:30 is accepted.
\<close>

theorem generateTimeSlots_ends_at_1730:
  "generateTimeSlots =
     [''09:00'', ''09:30'', ''10:00'', ''10:30'', ''11:00'', ''11:30'',
      ''12:00'', ''12:30'', ''13:00'', ''13:30'', ''14:00'', ''14:30'',
      ''15:00'', ''15:30'', ''16:00'', ''16:30'', ''17:00'', ''17:30''] \<and>
   toasts_after booking_at_last_slot = Some [toast_success ''Appointment booked successfully!''] \<and>
   map time (db_appointments (store_after booking_at_last_slot)) = [''17:30'']"
proof -
  have slots: "generateTimeSlots =
     [''09:00'', ''09:30'', ''10:00'', ''10:30'', ''11:00'', ''11:30'',
      ''12:00'', ''12:30'', ''13:00'', ''13:30'', ''14:00'', ''14:30'',
      ''15:00'', ''15:30'', ''16:00'', ''16:30'', ''17:00'', ''17:30'']"
    by code_simp
  have toast: "toasts_after booking_at_last_slot =
      Some [toast_success ''Appointment booked successfully!'']"
    by code_simp
  have stored: "map time (db_appointments (store_after booking_at_last_slot)) = [''17:30'']"
    by code_simp
  from slots toast stored show ?thesis by blast
qed

section \<open>The daily cap\<close>

text \<open>
  C4. The claim: a patient who already has two appointments created on a calendar day is
  refused a third request on that day. The code comments the check as "Check if user
  already has 2 appointments on the same day", but it counts the documents whose
  \<open>createdAt\<close> lies in the day of the requested date. Three requests made on 10 June
  for 17 June are all accepted, and leave three appointments created on 10 June for the
  same day; the third request is refused only when the requested date is the day of the
  request.
\<close>

theorem third_booking_for_later_date_accepted:
  "toasts_after three_bookings_for_next_week =
     Some [toast_success ''Appointment booked successfully!'',
           toast_success ''Appointment booked successfully!'',
           toast_success ''Appointment booked successfully!''] \<and>
   map patientId (db_appointments (store_after three_bookings_for_next_week)) =
     [''p1'', ''p1'', ''p1''] \<and>
   map createdAt (db_appointments (store_after three_bookings_for_next_week)) =
     [utc (june 10) 8 0, utc (june 10) 8 10, utc (june 10) 8 20] \<and>
   map date (db_appointments (store_after three_bookings_for_next_week)) =
     [june 17, june 17, june 17] \<and>
   toasts_after three_bookings_for_today =
     Some [toast_success ''Appointment booked successfully!'',
           toast_success ''Appointment booked successfully!'',
           toast_error ''You cannot book more than 2 appointments on the same day'']"
proof -
  have a: "toasts_after three_bookings_for_next_week =
     Some [toast_success ''Appointment booked successfully!'',
           toast_success ''Appointment booked successfully!'',
           toast_success ''Appointment booked successfully!'']"
    by code_simp
  have b: "map patientId (db_appointments (store_after three_bookings_for_next_week)) =
     [''p1'', ''p1'', ''p1'']"
    by code_simp
  have c: "map createdAt (db_appointments (store_after three_bookings_for_next_week)) =
     [utc (june 10) 8 0, utc (june 10) 8 10, utc (june 10) 8 20]"
    by code_simp
  have d: "map date (db_appointments (store_after three_bookings_for_next_week)) =
     [june 17, june 17, june 17]"
    by code_simp
  have e: "toasts_after three_bookings_for_today =
     Some [toast_success ''Appointment booked successfully!'',
           toast_success ''Appointment booked successfully!'',
           toast_error ''You cannot book more than 2 appointments on the same day'']"
    by code_simp
  from a b c d e show ?thesis by blast
qed

section \<open>Claiming an appointment\<close>

lemma fetchPending_pending:
  "a \<in> set (fetchPendingAppointments db) \<Longrightarrow> a \<in> set (db_appointments db) \<and> status a = Pending"
  by (simp add: fetchPendingAppointments_def)

text \<open>
  C1, as stated, fails. The claim: a claim on an appointment that is no longer pending
  fails with AlreadyClaimed and leaves the claimed doctor unchanged. In the run below d1 has
  accepted a1 (confirmed, doctor d1, name Dee); d2 then presses Accept on a pending list
  loaded before that. The handler shows the success toast, and a1 now carries d2 and Eli.
\<close>

theorem claim_on_confirmed_overwrites:
  "status_after claimed_by_d1 ''a1'' = Some Confirmed \<and>
   doctorId_after claimed_by_d1 ''a1'' = Some (Some ''d1'') \<and>
   map doctorName (db_appointments (store_after claimed_by_d1)) = [Some ''Dee''] \<and>
   toasts_after second_claim =
     Some [toast_success ''Appointment booked successfully!'',
           toast_success ''Appointment accepted successfully!'',
           toast_success ''Appointment accepted successfully!''] \<and>
   doctorId_after second_claim ''a1'' = Some (Some ''d2'') \<and>
   map doctorName (db_appointments (store_after second_claim)) = [Some ''Eli'']"
proof -
  have a: "status_after claimed_by_d1 ''a1'' = Some Confirmed" by code_simp
  have b: "doctorId_after claimed_by_d1 ''a1'' = Some (Some ''d1'')" by code_simp
  have c: "map doctorName (db_appointments (store_after claimed_by_d1)) = [Some ''Dee'']"
    by code_simp
  have d: "toasts_after second_claim =
     Some [toast_success ''Appointment booked successfully!'',
           toast_success ''Appointment accepted successfully!'',
           toast_success ''Appointment accepted successfully!'']" by code_simp
  have e: "doctorId_after second_claim ''a1'' = Some (Some ''d2'')" by code_simp
  have f: "map doctorName (db_appointments (store_after second_claim)) = [Some ''Eli'']"
    by code_simp
  from a b c d e f show ?thesis by blast
qed

text \<open>
  C1, amended. \<open>handleAcceptAppointment\<close> does not look at the status in the store: it
  succeeds whenever the appointment document exists, and then the store is the old one with
  that document's status set to confirmed, its doctor id and doctor name set to the caller's
  and its update time set, every other field and every other document as before, and the
  appointment is removed from the page's list; it fails, leaving the store and the page as
  they were, only when the document does not exist. The page offers Accept for exactly the
  appointments of its list; a list just loaded holds only appointments that are pending in
  the store, and in every run of the portal an Accept is a step only for an appointment of
  the list of the page it is pressed on.
\<close>

theorem accept_succeeds_iff_document_exists:
  assumes "handleAcceptAppointment now i u apts db = (t, apts', db')"
  shows "(i \<in> set (map apt_id (db_appointments db)) \<longrightarrow>
            t = toast_success ''Appointment accepted successfully!'' \<and>
            status_of db' i = Some Confirmed \<and>
            doctorId_of db' i = Some (Some (uid u)) \<and>
            apts' = filter (\<lambda>apt. apt_id apt \<noteq> i) apts \<and>
            db' = db\<lparr>db_appointments :=
                        map (\<lambda>a. if apt_id a = i
                                 then a\<lparr>status := Confirmed, doctorId := Some (uid u),
                                        doctorName := Some (name u), updatedAt := now\<rparr>
                                 else a)
                          (db_appointments db)\<rparr>) \<and>
         (i \<notin> set (map apt_id (db_appointments db)) \<longrightarrow>
            t = toast_error ''Failed to accept appointment'' \<and> db' = db \<and> apts' = apts) \<and>
         (\<forall>j. j \<noteq> i \<longrightarrow> status_of db' j = status_of db j \<and> doctorId_of db' j = doctorId_of db j \<and>
               find (\<lambda>a. apt_id a = j) (db_appointments db') =
               find (\<lambda>a. apt_id a = j) (db_appointments db)) \<and>
         (\<forall>a \<in> set (fetchPendingAppointments db). a \<in> set (db_appointments db) \<and> status a = Pending) \<and>
         acceptButton apts i = (i \<in> set (map apt_id apts)) \<and>
         (acceptButton (fetchPendingAppointments db) i \<longrightarrow>
            (\<exists>a \<in> set (db_appointments db). apt_id a = i \<and> status a = Pending)) \<and>
         (runs (es @ [ev_accept p now2 j]) \<longrightarrow> j \<in> set (offered_after es p))"
proof -
  have eff: "db_appointments db' = apply_effect (eff_claim i now u) (db_appointments db)"
    by (rule handleAccept_appointments[OF assms])
  have ex: "i \<in> set (map apt_id (db_appointments db)) \<longrightarrow>
            t = toast_success ''Appointment accepted successfully!'' \<and>
            status_of db' i = Some Confirmed \<and>
            doctorId_of db' i = Some (Some (uid u)) \<and>
            apts' = filter (\<lambda>apt. apt_id apt \<noteq> i) apts \<and>
            db' = db\<lparr>db_appointments :=
                        map (\<lambda>a. if apt_id a = i
                                 then a\<lparr>status := Confirmed, doctorId := Some (uid u),
                                        doctorName := Some (name u), updatedAt := now\<rparr>
                                 else a)
                          (db_appointments db)\<rparr>"
  proof
    assume i: "i \<in> set (map apt_id (db_appointments db))"
    then have "find (\<lambda>a. apt_id a = i) (db_appointments db) \<noteq> None"
      by (simp add: find_None_iff_not_in)
    then obtain a where "find (\<lambda>a. apt_id a = i) (db_appointments db) = Some a" by blast
    then have "status_of db i = Some (status a)" "doctorId_of db i = Some (doctorId a)"
      by (simp_all add: status_of_def doctorId_of_def)
    with status_of_effect_claim[OF eff, of i]
    have "status_of db' i = Some Confirmed" "doctorId_of db' i = Some (Some (uid u))" by simp_all
    moreover from assms i have "t = toast_success ''Appointment accepted successfully!''"
      "apts' = filter (\<lambda>apt. apt_id apt \<noteq> i) apts"
      "db' = db\<lparr>db_appointments :=
                        map (\<lambda>a. if apt_id a = i
                                 then a\<lparr>status := Confirmed, doctorId := Some (uid u),
                                        doctorName := Some (name u), updatedAt := now\<rparr>
                                 else a)
                          (db_appointments db)\<rparr>"
      by (auto simp: handleAcceptAppointment_def updateDoc_appointments_def split: if_splits)
    ultimately show "t = toast_success ''Appointment accepted successfully!'' \<and>
            status_of db' i = Some Confirmed \<and>
            doctorId_of db' i = Some (Some (uid u)) \<and>
            apts' = filter (\<lambda>apt. apt_id apt \<noteq> i) apts \<and>
            db' = db\<lparr>db_appointments :=
                        map (\<lambda>a. if apt_id a = i
                                 then a\<lparr>status := Confirmed, doctorId := Some (uid u),
                                        doctorName := Some (name u), updatedAt := now\<rparr>
                                 else a)
                          (db_appointments db)\<rparr>" by blast
  qed
  have nex: "i \<notin> set (map apt_id (db_appointments db)) \<longrightarrow>
            t = toast_error ''Failed to accept appointment'' \<and> db' = db \<and> apts' = apts"
    using assms
    by (auto simp: handleAcceptAppointment_def updateDoc_appointments_def split: if_splits)
  have others: "\<forall>j. j \<noteq> i \<longrightarrow> status_of db' j = status_of db j \<and> doctorId_of db' j = doctorId_of db j \<and>
               find (\<lambda>a. apt_id a = j) (db_appointments db') =
               find (\<lambda>a. apt_id a = j) (db_appointments db)"
    using status_of_effect_claim[OF eff] eff by (simp add: find_other_id)
  have gate: "\<forall>a \<in> set (fetchPendingAppointments db). a \<in> set (db_appointments db) \<and> status a = Pending"
    using fetchPending_pending by blast
  have button: "acceptButton apts i = (i \<in> set (map apt_id apts))"
    by (simp add: acceptButton_def)
  have loaded: "acceptButton (fetchPendingAppointments db) i \<longrightarrow>
            (\<exists>a \<in> set (db_appointments db). apt_id a = i \<and> status a = Pending)"
    using fetchPending_pending by (auto simp: acceptButton_def)
  have stp: "runs (es @ [ev_accept p now2 j]) \<longrightarrow> j \<in> set (offered_after es p)"
  proof
    assume "runs (es @ [ev_accept p now2 j])"
    then obtain s s' where s: "run initialSys es = Some s"
      and st: "step s (ev_accept p now2 j) = Some s'"
      by (auto simp: runs_Some run_snoc split: option.splits)
    from step_accept_gate[OF st] s show "j \<in> set (offered_after es p)"
      by (simp add: offered_after_def acceptButton_def)
  qed
  from ex nex others gate button loaded stp show ?thesis by blast
qed

text \<open>
  C1, witness: d2's Accept on a1, which exists and is confirmed for d1, from the list that
  was loaded while a1 was pending, as a call and as a step of the run; and an Accept on a9,
  which does not exist.
\<close>

theorem accept_succeeds_iff_document_exists_witness:
  "''a1'' \<in> set (map apt_id (db_appointments (store_after claimed_by_d1))) \<and>
   status_of (store_after claimed_by_d1) ''a1'' = Some Confirmed \<and>
   fst (handleAcceptAppointment (utc (june 10) 8 6) ''a1'' doctor_d2
          (fetchPendingAppointments (store_after booked)) (store_after claimed_by_d1)) =
     toast_success ''Appointment accepted successfully!'' \<and>
   doctorId_of (snd (snd (handleAcceptAppointment (utc (june 10) 8 6) ''a1'' doctor_d2
          (fetchPendingAppointments (store_after booked)) (store_after claimed_by_d1)))) ''a1'' =
     Some (Some ''d2'') \<and>
   map doctorName (db_appointments (snd (snd (handleAcceptAppointment (utc (june 10) 8 6) ''a1''
          doctor_d2 (fetchPendingAppointments (store_after booked))
          (store_after claimed_by_d1))))) = [Some ''Eli''] \<and>
   map status (fetchPendingAppointments (store_after booked)) = [Pending] \<and>
   acceptButton (fetchPendingAppointments (store_after booked)) ''a1'' \<and>
   runs (claimed_by_d1 @ [ev_accept 1 (utc (june 10) 8 6) ''a1'']) \<and>
   ''a1'' \<in> set (offered_after claimed_by_d1 1) \<and>
   ''a9'' \<notin> set (map apt_id (db_appointments (store_after claimed_by_d1))) \<and>
   fst (handleAcceptAppointment (utc (june 10) 8 6) ''a9'' doctor_d2 []
          (store_after claimed_by_d1)) = toast_error ''Failed to accept appointment'' \<and>
   snd (snd (handleAcceptAppointment (utc (june 10) 8 6) ''a9'' doctor_d2 []
          (store_after claimed_by_d1))) = store_after claimed_by_d1"
proof -
  let ?l = "fetchPendingAppointments (store_after booked)"
  let ?r = "handleAcceptAppointment (utc (june 10) 8 6) ''a1'' doctor_d2 ?l
              (store_after claimed_by_d1)"
  let ?q = "handleAcceptAppointment (utc (june 10) 8 6) ''a9'' doctor_d2 []
          (store_after claimed_by_d1)"
  have h: "?r = (fst ?r, fst (snd ?r), snd (snd ?r))" by simp
  have k: "?q = (fst ?q, fst (snd ?q), snd (snd ?q))" by simp
  have ex: "''a1'' \<in> set (map apt_id (db_appointments (store_after claimed_by_d1)))" by code_simp
  have nex: "''a9'' \<notin> set (map apt_id (db_appointments (store_after claimed_by_d1)))"
    by code_simp
  have st: "status_of (store_after claimed_by_d1) ''a1'' = Some Confirmed" by code_simp
  have u: "uid doctor_d2 = ''d2''" "name doctor_d2 = ''Eli''" by (simp_all add: doctor_d2_def)
  have p: "map status ?l = [Pending]" by code_simp
  have b: "acceptButton ?l ''a1''" by code_simp
  have r: "runs (claimed_by_d1 @ [ev_accept 1 (utc (june 10) 8 6) ''a1''])" by code_simp
  have one: "map apt_id (db_appointments (store_after claimed_by_d1)) = [''a1'']" by code_simp
  note inst = accept_succeeds_iff_document_exists[OF h, where es = claimed_by_d1 and p = 1
      and ?now2.0 = "utc (june 10) 8 6" and j = "''a1''"]
  from inst ex
  have 1: "fst ?r = toast_success ''Appointment accepted successfully!''"
    and two: "doctorId_of (snd (snd ?r)) ''a1'' = Some (Some (uid doctor_d2))"
    and three: "snd (snd ?r) = (store_after claimed_by_d1)\<lparr>db_appointments :=
              map (\<lambda>a. if apt_id a = ''a1''
                       then a\<lparr>status := Confirmed, doctorId := Some (uid doctor_d2),
                              doctorName := Some (name doctor_d2),
                              updatedAt := utc (june 10) 8 6\<rparr>
                       else a)
                (db_appointments (store_after claimed_by_d1))\<rparr>"
    by blast+
  from two u have 2: "doctorId_of (snd (snd ?r)) ''a1'' = Some (Some ''d2'')" by simp
  from three u have 3: "db_appointments (snd (snd ?r)) =
              map (\<lambda>a. if apt_id a = ''a1''
                       then a\<lparr>status := Confirmed, doctorId := Some ''d2'',
                              doctorName := Some ''Eli'', updatedAt := utc (june 10) 8 6\<rparr>
                       else a)
                (db_appointments (store_after claimed_by_d1))" by simp
  from one obtain a where a: "db_appointments (store_after claimed_by_d1) = [a]" "apt_id a = ''a1''"
    by (cases "db_appointments (store_after claimed_by_d1)") auto
  from 3 a have 4: "map doctorName (db_appointments (snd (snd ?r))) = [Some ''Eli'']" by simp
  from inst r have 5: "''a1'' \<in> set (offered_after claimed_by_d1 1)" by blast
  from accept_succeeds_iff_document_exists[OF k] nex
  have 6: "fst ?q = toast_error ''Failed to accept appointment''"
    and 7: "snd (snd ?q) = store_after claimed_by_d1"
    by simp_all
  from ex nex st p b r 1 2 4 5 6 7 show ?thesis by blast
qed

section \<open>Advancing an appointment\<close>

text \<open>
  C2, as stated, fails. The claim: over any sequence of claims and advances the status
  never regresses, and an advance from a state other than confirmed or in-progress yields
  InvalidTransition. In the first run d1 completes a1 in one tab and then presses Start
  Appointment in a second tab that still shows a1 as confirmed: the status in the store
  goes from completed back to in-progress, with a success toast. In the second run d2
  accepts a1 from a stale pending list after d1 has started it: in-progress goes back to
  confirmed.
\<close>

theorem status_regresses_from_stale_page:
  "status_after completed_in_first_tab ''a1'' = Some Completed \<and>
   status_after advance_in_second_tab ''a1'' = Some InProgress \<and>
   toasts_after advance_in_second_tab =
     Some [toast_success ''Appointment booked successfully!'',
           toast_success ''Appointment accepted successfully!'',
           toast_success ''Appointment in progress successfully!'',
           toast_success ''Appointment completed successfully!'',
           toast_success ''Appointment in progress successfully!''] \<and>
   status_after started_by_d1 ''a1'' = Some InProgress \<and>
   status_after claim_after_start ''a1'' = Some Confirmed"
proof -
  have a: "status_after completed_in_first_tab ''a1'' = Some Completed" by code_simp
  have b: "status_after advance_in_second_tab ''a1'' = Some InProgress" by code_simp
  have c: "toasts_after advance_in_second_tab =
     Some [toast_success ''Appointment booked successfully!'',
           toast_success ''Appointment accepted successfully!'',
           toast_success ''Appointment in progress successfully!'',
           toast_success ''Appointment completed successfully!'',
           toast_success ''Appointment in progress successfully!'']" by code_simp
  have d: "status_after started_by_d1 ''a1'' = Some InProgress" by code_simp
  have e: "status_after claim_after_start ''a1'' = Some Confirmed" by code_simp
  from a b c d e show ?thesis by blast
qed

text \<open>
  C2, amended. \<open>getNextStatus\<close> maps confirmed to in-progress and in-progress to completed,
  and nothing else; the status button is rendered only for an appointment of the page's
  list whose status on the page is confirmed or in-progress (otherwise there is no
  operation and no error). The button writes the successor of the status the page shows,
  and Accept writes confirmed. So when the page shows the status the store holds, an
  advance moves the appointment exactly one step forward in the order pending, confirmed,
  in-progress, completed, a claim moves a pending appointment to confirmed, and no other
  appointment changes its status.
\<close>

theorem status_moves_one_step_on_current_page:
  "((getNextStatus st = Some ns) =
      (st = Confirmed \<and> ns = InProgress \<or> st = InProgress \<and> ns = Completed)) \<and>
   ((clickStatusButton now v page db = None) =
      (v \<notin> set (dp_appointments page) \<or> status v = Pending \<or> status v = Completed)) \<and>
   (status_of db (apt_id v) = Some (status v) \<and>
    clickStatusButton now v page db = Some (t, page', db') \<longrightarrow>
      map_option status_rank (status_of db' (apt_id v)) = Some (status_rank (status v) + 1) \<and>
      (\<forall>j. j \<noteq> apt_id v \<longrightarrow> status_of db' j = status_of db j)) \<and>
   (status_of db i = Some Pending \<and>
    handleAcceptAppointment now2 i u apts db = (t2, apts2, db2) \<longrightarrow>
      status_of db2 i = Some Confirmed \<and>
      (\<forall>j. j \<noteq> i \<longrightarrow> status_of db2 j = status_of db j))"
proof -
  have tab: "(getNextStatus st = Some ns) =
      (st = Confirmed \<and> ns = InProgress \<or> st = InProgress \<and> ns = Completed)"
    by (rule getNextStatus_Some)
  have nobutton: "(clickStatusButton now v page db = None) =
      (v \<notin> set (dp_appointments page) \<or> status v = Pending \<or> status v = Completed)"
    by (cases "status v") (auto simp: clickStatusButton_def)
  have adv: "status_of db (apt_id v) = Some (status v) \<and>
    clickStatusButton now v page db = Some (t, page', db') \<longrightarrow>
      map_option status_rank (status_of db' (apt_id v)) = Some (status_rank (status v) + 1) \<and>
      (\<forall>j. j \<noteq> apt_id v \<longrightarrow> status_of db' j = status_of db j)"
  proof
    assume h: "status_of db (apt_id v) = Some (status v) \<and>
      clickStatusButton now v page db = Some (t, page', db')"
    from clickStatusButton_Some[of now v page db "(t, page', db')"] h obtain ns' where
      ns: "getNextStatus (status v) = Some ns'" and
      u: "handleStatusUpdate now (apt_id v) ns' page db = (t, page', db')" by auto
    have eff: "db_appointments db' =
        apply_effect (eff_status (apt_id v) now ns') (db_appointments db)"
      by (rule handleStatusUpdate_appointments(1)[OF u])
    from ns have rk: "status_rank ns' = status_rank (status v) + 1"
      by (auto simp: getNextStatus_Some)
    from status_of_effect_status(1)[OF eff, of "apt_id v"] h
    have "status_of db' (apt_id v) = Some ns'" by simp
    with rk status_of_effect_status(1)[OF eff]
    show "map_option status_rank (status_of db' (apt_id v)) = Some (status_rank (status v) + 1) \<and>
      (\<forall>j. j \<noteq> apt_id v \<longrightarrow> status_of db' j = status_of db j)" by simp
  qed
  have clm: "status_of db i = Some Pending \<and>
    handleAcceptAppointment now2 i u apts db = (t2, apts2, db2) \<longrightarrow>
      status_of db2 i = Some Confirmed \<and>
      (\<forall>j. j \<noteq> i \<longrightarrow> status_of db2 j = status_of db j)"
  proof
    assume h: "status_of db i = Some Pending \<and>
      handleAcceptAppointment now2 i u apts db = (t2, apts2, db2)"
    then have eff: "db_appointments db2 = apply_effect (eff_claim i now2 u) (db_appointments db)"
      using handleAccept_appointments by blast
    from status_of_effect_claim(1)[OF eff] h
    show "status_of db2 i = Some Confirmed \<and>
      (\<forall>j. j \<noteq> i \<longrightarrow> status_of db2 j = status_of db j)" by simp
  qed
  from tab nobutton adv clm show ?thesis by blast
qed

text \<open>
  C2, witness: d1's page shows a1 as confirmed, as the store holds it, and the button moves
  it to in-progress; d1's Accept moved it from pending to confirmed.
\<close>

theorem status_moves_one_step_on_current_page_witness:
  "status_of (store_after claimed_by_d1) ''a1'' = Some Confirmed \<and>
   map status (dp_appointments page_of_d1) = [Confirmed] \<and>
   status_of
     (snd (snd (the (clickStatusButton (utc (june 10) 9 0) (dp_appointments page_of_d1 ! 0)
                       page_of_d1 (store_after claimed_by_d1))))) ''a1'' = Some InProgress \<and>
   status_of (store_after booked) ''a1'' = Some Pending \<and>
   status_of
     (snd (snd (handleAcceptAppointment (utc (june 10) 8 5) ''a1'' doctor_d1
                  (fetchPendingAppointments (store_after booked)) (store_after booked)))) ''a1'' =
     Some Confirmed"
proof -
  let ?v = "dp_appointments page_of_d1 ! 0"
  let ?c = "clickStatusButton (utc (june 10) 9 0) ?v page_of_d1 (store_after claimed_by_d1)"
  let ?r = "handleAcceptAppointment (utc (june 10) 8 5) ''a1'' doctor_d1
                  (fetchPendingAppointments (store_after booked)) (store_after booked)"
  have v_id: "apt_id ?v = ''a1''" by code_simp
  have v_st: "status ?v = Confirmed" by code_simp
  have shown: "map status (dp_appointments page_of_d1) = [Confirmed]" by code_simp
  have cur: "status_of (store_after claimed_by_d1) ''a1'' = Some Confirmed" by code_simp
  have v_in: "?v \<in> set (dp_appointments page_of_d1)" by code_simp
  have some: "?c \<noteq> None"
    using v_in v_st by (simp add: clickStatusButton_def)
  then have c: "?c = Some (fst (the ?c), fst (snd (the ?c)), snd (snd (the ?c)))" by auto
  have pend: "status_of (store_after booked) ''a1'' = Some Pending" by code_simp
  have r: "?r = (fst ?r, fst (snd ?r), snd (snd ?r))" by simp
  have cur': "status_of (store_after claimed_by_d1) (apt_id ?v) = Some (status ?v)"
    by code_simp
  have "map_option status_rank (status_of (snd (snd (the ?c))) (apt_id ?v)) =
          Some (status_rank (status ?v) + 1)"
    using status_moves_one_step_on_current_page
         [where now = "utc (june 10) 9 0" and v = ?v and page = page_of_d1
            and db = "store_after claimed_by_d1"
            and t = "fst (the ?c)" and page' = "fst (snd (the ?c))" and db' = "snd (snd (the ?c))"]
      c cur' by blast
  then obtain y where y: "status_of (snd (snd (the ?c))) (apt_id ?v) = Some y"
      "status_rank y = status_rank (status ?v) + 1"
    by auto
  from y(2) v_st have "y = InProgress" by (cases y) simp_all
  with y(1) v_id have adv: "status_of (snd (snd (the ?c))) ''a1'' = Some InProgress" by simp
  have clm: "status_of (snd (snd ?r)) ''a1'' = Some Confirmed"
    using status_moves_one_step_on_current_page
         [where db = "store_after booked" and i = "''a1''" and ?now2.0 = "utc (june 10) 8 5"
            and u = doctor_d1 and apts = "fetchPendingAppointments (store_after booked)"
            and ?t2.0 = "fst ?r" and ?apts2.0 = "fst (snd ?r)" and ?db2.0 = "snd (snd ?r)"]
      r pend by blast
  from shown cur pend clm adv show ?thesis by blast
qed

section \<open>The claimed doctor\<close>

text \<open>
  C3, as stated, fails. The claim: once the claimed doctor id is non-null, no operation,
  a later claim included, changes it. In the run below d1 has accepted and started a1;
  d2 then accepts a1 from a pending list loaded before d1's claim, and the claimed doctor
  id changes from d1 to d2.
\<close>

theorem later_claim_replaces_doctor:
  "status_after started_by_d1 ''a1'' = Some InProgress \<and>
   doctorId_after started_by_d1 ''a1'' = Some (Some ''d1'') \<and>
   doctorId_after claim_after_start ''a1'' = Some (Some ''d2'')"
proof -
  have a: "status_after started_by_d1 ''a1'' = Some InProgress" by code_simp
  have b: "doctorId_after started_by_d1 ''a1'' = Some (Some ''d1'')" by code_simp
  have c: "doctorId_after claim_after_start ''a1'' = Some (Some ''d2'')" by code_simp
  from a b c show ?thesis by blast
qed

text \<open>
  C3, amended. After every run of the portal from the empty store, the claimed doctor id
  of an appointment is null if and only if its status is pending. Once it is non-null, no
  step reverts it to null, and every step other than an Accept of that appointment (an
  advance, a prescription, a feedback, a booking, a page being opened) leaves its value
  unchanged; an Accept of that appointment sets it to the id of the doctor whose page the
  Accept is pressed on.
\<close>

theorem claimed_doctor_over_runs:
  "((doctorId_after es i = Some None) = (status_after es i = Some Pending)) \<and>
   (doctorId_after es j = Some (Some x) \<and> runs (es @ [e]) \<longrightarrow>
      (\<exists>y. doctorId_after (es @ [e]) j = Some (Some y)) \<and>
      ((\<forall>p now. e \<noteq> ev_accept p now j) \<longrightarrow> doctorId_after (es @ [e]) j = Some (Some x)) \<and>
      (\<forall>p now. e = ev_accept p now j \<longrightarrow>
         (\<exists>d. accepting_doctor es p = Some d \<and> doctorId_after (es @ [e]) j = Some (Some d))))"
proof -
  have inv: "(doctorId_after es i = Some None) = (status_after es i = Some Pending)"
  proof (cases "run initialSys es")
    case None
    then show ?thesis by (simp add: doctorId_after_def status_after_def)
  next
    case (Some s)
    then have si: "store_inv s" by (rule store_inv_reachable)
    show ?thesis
    proof (cases "find (\<lambda>a. apt_id a = i) (db_appointments (sys_db s))")
      case None
      with Some show ?thesis
        by (simp add: doctorId_after_def status_after_def doctorId_of_def status_of_def)
    next
      case (Some a)
      then have "a \<in> set (db_appointments (sys_db s))" by (simp add: find_in_set)
      with si have "(doctorId a = None) = (status a = Pending)" by (simp add: store_inv_def)
      with Some \<open>run initialSys es = Some s\<close> show ?thesis
        by (simp add: doctorId_after_def status_after_def doctorId_of_def status_of_def)
    qed
  qed
  have keep: "doctorId_after es j = Some (Some x) \<and> runs (es @ [e]) \<longrightarrow>
      (\<exists>y. doctorId_after (es @ [e]) j = Some (Some y)) \<and>
      ((\<forall>p now. e \<noteq> ev_accept p now j) \<longrightarrow> doctorId_after (es @ [e]) j = Some (Some x)) \<and>
      (\<forall>p now. e = ev_accept p now j \<longrightarrow>
         (\<exists>d. accepting_doctor es p = Some d \<and> doctorId_after (es @ [e]) j = Some (Some d)))"
  proof
    assume h: "doctorId_after es j = Some (Some x) \<and> runs (es @ [e])"
    then obtain s' where s': "run initialSys (es @ [e]) = Some s'" by (auto simp: runs_Some)
    then obtain s where s: "run initialSys es = Some s" and st: "step s e = Some s'"
      by (auto simp: run_snoc split: option.splits)
    from h s have d: "doctorId_of (sys_db s) j = Some (Some x)" by (simp add: doctorId_after_def)
    from step_effect[OF st] obtain eff where
      ev: "effect_of_event e eff" and
      db: "db_appointments (sys_db s') = apply_effect eff (db_appointments (sys_db s))"
      by blast
    have after: "doctorId_after (es @ [e]) j = doctorId_of (sys_db s') j"
      using s' by (simp add: doctorId_after_def)
    note sel = doctorId_of_effect[OF d db]
    have frame: "(\<exists>y. doctorId_after (es @ [e]) j = Some (Some y)) \<and>
      ((\<forall>p now. e \<noteq> ev_accept p now j) \<longrightarrow> doctorId_after (es @ [e]) j = Some (Some x))"
    proof (cases eff)
      case (eff_claim i' now' u')
      with ev obtain p now2 where e: "e = ev_accept p now2 i'"
        by (cases e) (auto simp: effect_of_event_def)
      with sel eff_claim after show ?thesis by auto
    qed (use sel after in auto)
    have acc: "\<forall>p now. e = ev_accept p now j \<longrightarrow>
         (\<exists>d. accepting_doctor es p = Some d \<and> doctorId_after (es @ [e]) j = Some (Some d))"
    proof (intro allI impI)
      fix p now assume e: "e = ev_accept p now j"
      from step_accept_gate[OF st[unfolded e]] have p: "p < length (pendingPages s)"
        and db2: "db_appointments (sys_db s') =
           apply_effect (eff_claim j now (fst (pendingPages s ! p))) (db_appointments (sys_db s))"
        by simp_all
      from doctorId_of_effect[OF d db2] after
      have "doctorId_after (es @ [e]) j = Some (Some (uid (fst (pendingPages s ! p))))" by simp
      moreover from s p have "accepting_doctor es p = Some (uid (fst (pendingPages s ! p)))"
        by (simp add: accepting_doctor_def)
      ultimately show "\<exists>d. accepting_doctor es p = Some d \<and>
                           doctorId_after (es @ [e]) j = Some (Some d)" by blast
    qed
    from frame acc show "(\<exists>y. doctorId_after (es @ [e]) j = Some (Some y)) \<and>
      ((\<forall>p now. e \<noteq> ev_accept p now j) \<longrightarrow> doctorId_after (es @ [e]) j = Some (Some x)) \<and>
      (\<forall>p now. e = ev_accept p now j \<longrightarrow>
         (\<exists>d. accepting_doctor es p = Some d \<and> doctorId_after (es @ [e]) j = Some (Some d)))"
      by blast
  qed
  from inv keep show ?thesis by blast
qed

text \<open>
  C3, witness: a1 is claimed by d1 and shown on d1's page; the status button is a step of
  the portal, it is not an Accept, and a1 keeps d1; d2's Accept from the pending list is a
  step too, and a1 then carries d2.
\<close>

theorem claimed_doctor_over_runs_witness:
  "doctorId_after shown_to_d1 ''a1'' = Some (Some ''d1'') \<and>
   runs (shown_to_d1 @ [ev_status 0 (utc (june 10) 9 0) 0]) \<and>
   doctorId_after (shown_to_d1 @ [ev_status 0 (utc (june 10) 9 0) 0]) ''a1'' = Some (Some ''d1'') \<and>
   status_after shown_to_d1 ''a1'' \<noteq> Some Pending \<and>
   runs (shown_to_d1 @ [ev_accept 1 (utc (june 10) 9 1) ''a1'']) \<and>
   accepting_doctor shown_to_d1 1 = Some ''d2'' \<and>
   doctorId_after (shown_to_d1 @ [ev_accept 1 (utc (june 10) 9 1) ''a1'']) ''a1'' =
     Some (Some ''d2'')"
proof -
  have a: "doctorId_after shown_to_d1 ''a1'' = Some (Some ''d1'')" by code_simp
  have b: "runs (shown_to_d1 @ [ev_status 0 (utc (june 10) 9 0) 0])" by code_simp
  have c: "\<forall>p now. ev_status 0 (utc (june 10) 9 0) 0 \<noteq> ev_accept p now ''a1''" by simp
  have r: "runs (shown_to_d1 @ [ev_accept 1 (utc (june 10) 9 1) ''a1''])" by code_simp
  have d: "accepting_doctor shown_to_d1 1 = Some ''d2''" by code_simp
  from claimed_doctor_over_runs
         [of shown_to_d1 "''a1''" "''a1''" "''d1''" "ev_status 0 (utc (june 10) 9 0) 0"] a b c
  have 1: "doctorId_after (shown_to_d1 @ [ev_status 0 (utc (june 10) 9 0) 0]) ''a1'' =
             Some (Some ''d1'')"
    and 2: "status_after shown_to_d1 ''a1'' \<noteq> Some Pending"
    by auto
  from claimed_doctor_over_runs
         [of shown_to_d1 "''a1''" "''a1''" "''d1''" "ev_accept 1 (utc (june 10) 9 1) ''a1''"] a r
  have "\<exists>d. accepting_doctor shown_to_d1 1 = Some d \<and>
            doctorId_after (shown_to_d1 @ [ev_accept 1 (utc (june 10) 9 1) ''a1'']) ''a1'' =
              Some (Some d)"
    by blast
  with d have 3: "doctorId_after (shown_to_d1 @ [ev_accept 1 (utc (june 10) 9 1) ''a1'']) ''a1'' =
     Some (Some ''d2'')" by auto
  from a b r d 1 2 3 show ?thesis by blast
qed

section \<open>Prescriptions\<close>

lemma fetchPrescriptions_None:
  "fetchPrescriptions db xs m k = None \<Longrightarrow>
     m k = None \<and> (k \<in> apt_id ` set xs \<longrightarrow> k \<notin> rx_appointmentId ` set (db_prescriptions db))"
proof (induction xs arbitrary: m)
  case Nil
  then show ?case by simp
next
  case (Cons a xs)
  show ?case
  proof (cases "find (\<lambda>p. rx_appointmentId p = apt_id a) (db_prescriptions db)")
    case None
    then have no: "apt_id a \<notin> rx_appointmentId ` set (db_prescriptions db)"
      by (auto simp: find_None_iff)
    from Cons.prems None have "fetchPrescriptions db xs m k = None" by simp
    from Cons.IH[OF this] no show ?thesis by auto
  next
    case (Some p)
    with Cons.prems have "fetchPrescriptions db xs (m(apt_id a \<mapsto> p)) k = None" by simp
    from Cons.IH[OF this] show ?thesis by (auto split: if_splits)
  qed
qed

lemma addPrescriptionButton_fresh:
  assumes "addPrescriptionButton (fetchMyAppointments u db) a"
  shows "a \<in> set (db_appointments db) \<and> status a = Completed \<and> doctorId a = Some (uid u) \<and>
         apt_id a \<notin> rx_appointmentId ` set (db_prescriptions db)"
proof -
  let ?l = "orderBy_createdAt_desc (filter (\<lambda>a. doctorId a = Some (uid u)) (db_appointments db))"
  from assms have a: "a \<in> set ?l" and c: "status a = Completed"
    and n: "fetchPrescriptions db (filter (\<lambda>apt. status apt = Completed) ?l) Map.empty (apt_id a) = None"
    by (auto simp: addPrescriptionButton_def fetchMyAppointments_def Let_def)
  from a c have "apt_id a \<in> apt_id ` set (filter (\<lambda>apt. status apt = Completed) ?l)" by auto
  with fetchPrescriptions_None[OF n] have "apt_id a \<notin> rx_appointmentId ` set (db_prescriptions db)"
    by blast
  with a c show ?thesis by auto
qed

text \<open>
  C5, as stated, fails. The claim: attaching a prescription to an appointment that is not
  completed fails with NotCompleted, and succeeds only for the claimed doctor. In the run
  below d1 completes a1, d2 then accepts a1 from a stale pending list (a1 is confirmed
  again, with doctor d2), and d1 adds a prescription from the page that still shows a1 as
  completed: the handler shows the success toast and the prescription is stored, for an
  appointment that is confirmed and claimed by another doctor.
\<close>

theorem prescription_on_unfinished_appointment:
  "status_after reclaimed_after_completion ''a1'' = Some Confirmed \<and>
   doctorId_after reclaimed_after_completion ''a1'' = Some (Some ''d2'') \<and>
   db_prescriptions (store_after reclaimed_after_completion) = [] \<and>
   toasts_after prescription_after_reclaim =
     Some [toast_success ''Appointment booked successfully!'',
           toast_success ''Appointment accepted successfully!'',
           toast_success ''Appointment in progress successfully!'',
           toast_success ''Appointment completed successfully!'',
           toast_success ''Appointment accepted successfully!'',
           toast_success ''Prescription added successfully!''] \<and>
   status_after prescription_after_reclaim ''a1'' = Some Confirmed \<and>
   db_prescriptions (store_after prescription_after_reclaim) =
     [\<lparr>rx_id = ''rx1'', rx_appointmentId = ''a1'', medicines = filled_form,
       rx_createdAt = utc (june 10) 9 40\<rparr>]"
proof -
  have a: "status_after reclaimed_after_completion ''a1'' = Some Confirmed" by code_simp
  have b: "doctorId_after reclaimed_after_completion ''a1'' = Some (Some ''d2'')" by code_simp
  have c: "db_prescriptions (store_after reclaimed_after_completion) = []" by code_simp
  have d: "toasts_after prescription_after_reclaim =
     Some [toast_success ''Appointment booked successfully!'',
           toast_success ''Appointment accepted successfully!'',
           toast_success ''Appointment in progress successfully!'',
           toast_success ''Appointment completed successfully!'',
           toast_success ''Appointment accepted successfully!'',
           toast_success ''Prescription added successfully!'']" by code_simp
  have e: "status_after prescription_after_reclaim ''a1'' = Some Confirmed" by code_simp
  have f: "db_prescriptions (store_after prescription_after_reclaim) =
     [\<lparr>rx_id = ''rx1'', rx_appointmentId = ''a1'', medicines = filled_form,
       rx_createdAt = utc (june 10) 9 40\<rparr>]" by code_simp
  from a b c d e f show ?thesis by blast
qed

text \<open>
  C5, amended. \<open>handleSubmitPrescription\<close> checks the medicines only: when a medicine has
  an empty name, dosage or frequency it shows "Please fill in all medicine fields" and
  changes nothing; otherwise it stores one prescription for the appointment it is given,
  without reading the appointment's status or doctor or the existing prescriptions. The
  page offers Add Prescription for an appointment of the doctor's own list that the page
  shows as completed and without a prescription: on a page just loaded from the store,
  that appointment is completed in the store, its claimed doctor is the caller, and the
  store holds no prescription for it.
\<close>

theorem prescription_checks_medicines_only:
  "(list_ex (\<lambda>med. med_name med = [] \<or> dosage med = [] \<or> frequency med = [])
      (prescriptionForm page) \<longrightarrow>
      handleSubmitPrescription now newId i page db =
        (toast_error ''Please fill in all medicine fields'', page, db)) \<and>
   (\<not> list_ex (\<lambda>med. med_name med = [] \<or> dosage med = [] \<or> frequency med = [])
      (prescriptionForm page) \<longrightarrow>
      fst (handleSubmitPrescription now newId i page db) =
        toast_success ''Prescription added successfully!'' \<and>
      snd (snd (handleSubmitPrescription now newId i page db)) =
        db\<lparr>db_prescriptions := db_prescriptions db @
             [\<lparr>rx_id = newId, rx_appointmentId = i, medicines = prescriptionForm page,
               rx_createdAt = now\<rparr>]\<rparr>) \<and>
   (addPrescriptionButton (fetchMyAppointments u db) a \<longrightarrow>
      a \<in> set (db_appointments db) \<and> status a = Completed \<and> doctorId a = Some (uid u) \<and>
      apt_id a \<notin> rx_appointmentId ` set (db_prescriptions db))"
proof -
  have bad: "list_ex (\<lambda>med. med_name med = [] \<or> dosage med = [] \<or> frequency med = [])
      (prescriptionForm page) \<longrightarrow>
      handleSubmitPrescription now newId i page db =
        (toast_error ''Please fill in all medicine fields'', page, db)"
    by (simp add: handleSubmitPrescription_def)
  have good: "\<not> list_ex (\<lambda>med. med_name med = [] \<or> dosage med = [] \<or> frequency med = [])
      (prescriptionForm page) \<longrightarrow>
      fst (handleSubmitPrescription now newId i page db) =
        toast_success ''Prescription added successfully!'' \<and>
      snd (snd (handleSubmitPrescription now newId i page db)) =
        db\<lparr>db_prescriptions := db_prescriptions db @
             [\<lparr>rx_id = newId, rx_appointmentId = i, medicines = prescriptionForm page,
               rx_createdAt = now\<rparr>]\<rparr>"
    by (simp add: handleSubmitPrescription_def Let_def)
  have gate: "addPrescriptionButton (fetchMyAppointments u db) a \<longrightarrow>
      a \<in> set (db_appointments db) \<and> status a = Completed \<and> doctorId a = Some (uid u) \<and>
      apt_id a \<notin> rx_appointmentId ` set (db_prescriptions db)"
    using addPrescriptionButton_fresh by blast
  from bad good gate show ?thesis by blast
qed

text \<open>
  C5, witness: on d1's page loaded after a1 was completed, the empty form is refused, the
  filled form is stored, and the button is offered for a1, completed and claimed by d1.
\<close>

theorem prescription_checks_medicines_only_witness:
  "list_ex (\<lambda>med. med_name med = [] \<or> dosage med = [] \<or> frequency med = [])
      (prescriptionForm page_done) \<and>
   fst (handleSubmitPrescription (utc (june 10) 9 40) ''rx1'' ''a1'' page_done
          (store_after completed_by_d1)) = toast_error ''Please fill in all medicine fields'' \<and>
   \<not> list_ex (\<lambda>med. med_name med = [] \<or> dosage med = [] \<or> frequency med = []) filled_form \<and>
   fst (handleSubmitPrescription (utc (june 10) 9 40) ''rx1'' ''a1''
          (page_done\<lparr>prescriptionForm := filled_form\<rparr>) (store_after completed_by_d1)) =
     toast_success ''Prescription added successfully!'' \<and>
   addPrescriptionButton page_done (dp_appointments page_done ! 0) \<and>
   status (dp_appointments page_done ! 0) = Completed \<and>
   doctorId (dp_appointments page_done ! 0) = Some ''d1''"
proof -
  let ?bad = "\<lambda>med. med_name med = [] \<or> dosage med = [] \<or> frequency med = []"
  have a: "list_ex ?bad (prescriptionForm page_done)" by code_simp
  have b: "\<not> list_ex ?bad filled_form" by code_simp
  have b': "prescriptionForm (page_done\<lparr>prescriptionForm := filled_form\<rparr>) = filled_form" by simp
  have c: "addPrescriptionButton (fetchMyAppointments doctor_d1 (store_after completed_by_d1))
             (dp_appointments page_done ! 0)"
    unfolding page_done_def[symmetric]
    by (simp add: addPrescriptionButton_def) code_simp
  have u: "uid doctor_d1 = ''d1''" by (simp add: doctor_d1_def)
  from prescription_checks_medicines_only
         [of page_done "utc (june 10) 9 40" "''rx1''" "''a1''" "store_after completed_by_d1"
             doctor_d1 "dp_appointments page_done ! 0"] a
  have 1: "fst (handleSubmitPrescription (utc (june 10) 9 40) ''rx1'' ''a1'' page_done
          (store_after completed_by_d1)) = toast_error ''Please fill in all medicine fields''"
    by simp
  from prescription_checks_medicines_only
         [of "page_done\<lparr>prescriptionForm := filled_form\<rparr>" "utc (june 10) 9 40" "''rx1''" "''a1''"
             "store_after completed_by_d1" doctor_d1 "dp_appointments page_done ! 0"] b b' c u
  have 2: "fst (handleSubmitPrescription (utc (june 10) 9 40) ''rx1'' ''a1''
          (page_done\<lparr>prescriptionForm := filled_form\<rparr>) (store_after completed_by_d1)) =
     toast_success ''Prescription added successfully!''"
    and 3: "status (dp_appointments page_done ! 0) = Completed"
    and 4: "doctorId (dp_appointments page_done ! 0) = Some ''d1''"
    by simp_all
  from c have c': "addPrescriptionButton page_done (dp_appointments page_done ! 0)"
    by (simp add: page_done_def)
  from a b 1 2 3 4 c' show ?thesis by blast
qed

section \<open>Feedback\<close>

lemma fetchFeedbacks_Some:
  "m k \<noteq> None \<or>
   (k \<in> apt_id ` set xs \<and> (\<exists>f \<in> set (db_feedback db). fb_appointmentId f = k \<and> fb_patientId f = u))
   \<Longrightarrow> fetchFeedbacks u db xs m k \<noteq> None"
proof (induction xs arbitrary: m)
  case Nil
  then show ?case by simp
next
  case (Cons a xs)
  let ?m' = "case find (\<lambda>f. fb_appointmentId f = apt_id a \<and> fb_patientId f = u) (db_feedback db) of
               None \<Rightarrow> m | Some feedbackDoc \<Rightarrow> m(apt_id a \<mapsto> feedbackDoc)"
  have step: "fetchFeedbacks u db (a # xs) m k = fetchFeedbacks u db xs ?m' k" by simp
  have "?m' k \<noteq> None \<or>
   (k \<in> apt_id ` set xs \<and> (\<exists>f \<in> set (db_feedback db). fb_appointmentId f = k \<and> fb_patientId f = u))"
  proof (cases "m k \<noteq> None")
    case True
    then show ?thesis by (auto split: option.splits)
  next
    case False
    with Cons.prems have k: "k \<in> apt_id ` set (a # xs)"
      and f: "\<exists>f \<in> set (db_feedback db). fb_appointmentId f = k \<and> fb_patientId f = u" by auto
    show ?thesis
    proof (cases "k = apt_id a")
      case True
      with f have "find (\<lambda>f. fb_appointmentId f = apt_id a \<and> fb_patientId f = u) (db_feedback db) \<noteq> None"
        by (auto simp: find_None_iff)
      with True show ?thesis by auto
    next
      case False
      with k f show ?thesis by auto
    qed
  qed
  from this Cons.IH[of ?m'] step show ?case by simp
qed

text \<open>
  C6, as stated, fails. The claim: a second feedback for the same appointment and patient
  fails with AlreadyExists and creates no second record. In the run below the patient has
  My Appointments open in two tabs, both loaded before any feedback: each tab offers Leave
  Feedback for a1, both submissions show the success toast, and the store holds two
  feedback records for (a1, p1).
\<close>

theorem second_feedback_from_second_page:
  "toasts_after feedback_twice =
     Some [toast_success ''Appointment booked successfully!'',
           toast_success ''Appointment accepted successfully!'',
           toast_success ''Appointment in progress successfully!'',
           toast_success ''Appointment completed successfully!'',
           toast_success ''Feedback submitted successfully!'',
           toast_success ''Feedback submitted successfully!''] \<and>
   map fb_id (db_feedback (store_after feedback_twice)) = [''f1'', ''f2''] \<and>
   map fb_appointmentId (db_feedback (store_after feedback_twice)) = [''a1'', ''a1''] \<and>
   map fb_patientId (db_feedback (store_after feedback_twice)) = [''p1'', ''p1'']"
proof -
  have a: "toasts_after feedback_twice =
     Some [toast_success ''Appointment booked successfully!'',
           toast_success ''Appointment accepted successfully!'',
           toast_success ''Appointment in progress successfully!'',
           toast_success ''Appointment completed successfully!'',
           toast_success ''Feedback submitted successfully!'',
           toast_success ''Feedback submitted successfully!'']" by code_simp
  have b: "map fb_id (db_feedback (store_after feedback_twice)) = [''f1'', ''f2'']" by code_simp
  have c: "map fb_appointmentId (db_feedback (store_after feedback_twice)) = [''a1'', ''a1'']"
    by code_simp
  have d: "map fb_patientId (db_feedback (store_after feedback_twice)) = [''p1'', ''p1'']"
    by code_simp
  from a b c d show ?thesis by blast
qed

text \<open>
  C6, amended. \<open>handleSubmitFeedback\<close> does not look for an existing feedback; each
  successful call stores exactly one record. What keeps a patient from rating twice is
  the page: after a successful submission the page holds the feedback for that
  appointment, so Leave Feedback is no longer offered for it and the modal is closed (the
  submit button is gone); and a page loaded afterwards by the same patient does not offer
  Leave Feedback for it either, because the load finds the stored feedback.
\<close>

theorem feedback_offered_once_per_page:
  assumes "handleSubmitFeedback now newId i docId page db = (toast_success m, page', db')"
  shows "length (db_feedback db') = length (db_feedback db) + 1 \<and>
         feedbacks page' i \<noteq> None \<and>
         (\<forall>a. apt_id a = i \<longrightarrow> \<not> leaveFeedbackButton page' a) \<and>
         clickSubmitFeedback now2 newId2 page' db' = None \<and>
         (\<forall>a. apt_id a = i \<longrightarrow> \<not> leaveFeedbackButton (fetchAppointments (pt_currentUser page) db') a)"
proof -
  from assms have ok: "ff_rating (feedbackForm page) \<noteq> 0"
      "\<not> length (ff_comment (feedbackForm page)) > 150"
    by (auto simp: handleSubmitFeedback_def split: if_splits)
  with assms have page': "feedbacks page' i \<noteq> None" "showFeedbackModal page' = None"
    and db': "db_feedback db' = db_feedback db @
              [\<lparr>fb_id = newId,
                fb_appointmentId = i,
                fb_patientId = uid (pt_currentUser page),
                fb_doctorId = docId,
                rating = ff_rating (feedbackForm page),
                comment = (if ff_comment (feedbackForm page) = [] then None
                           else Some (ff_comment (feedbackForm page))),
                fb_createdAt = now\<rparr>]"
    by (auto simp: handleSubmitFeedback_def)
  have len: "length (db_feedback db') = length (db_feedback db) + 1" using db' by simp
  have here: "\<forall>a. apt_id a = i \<longrightarrow> \<not> leaveFeedbackButton page' a"
    using page'(1) by (auto simp: leaveFeedbackButton_def)
  have closed: "clickSubmitFeedback now2 newId2 page' db' = None"
    using page'(2) by (simp add: clickSubmitFeedback_def)
  have ex: "\<exists>f \<in> set (db_feedback db'). fb_appointmentId f = i \<and> fb_patientId f = uid (pt_currentUser page)"
    unfolding db' by simp
  have reload: "\<forall>a. apt_id a = i \<longrightarrow> \<not> leaveFeedbackButton (fetchAppointments (pt_currentUser page) db') a"
  proof (intro allI impI notI)
    fix a assume a: "apt_id a = i"
      and b: "leaveFeedbackButton (fetchAppointments (pt_currentUser page) db') a"
    let ?l = "orderBy_createdAt_desc
                (filter (\<lambda>a. patientId a = uid (pt_currentUser page)) (db_appointments db'))"
    from b have in_l: "a \<in> set ?l" and c: "status a = Completed"
      and n: "fetchFeedbacks (uid (pt_currentUser page)) db'
                (filter (\<lambda>apt. status apt = Completed) ?l) Map.empty (apt_id a) = None"
      by (auto simp: leaveFeedbackButton_def fetchAppointments_def Let_def)
    from in_l c a have "i \<in> apt_id ` set (filter (\<lambda>apt. status apt = Completed) ?l)" by auto
    with ex fetchFeedbacks_Some[of Map.empty i "filter (\<lambda>apt. status apt = Completed) ?l" db'
        "uid (pt_currentUser page)"]
    have "fetchFeedbacks (uid (pt_currentUser page)) db'
                (filter (\<lambda>apt. status apt = Completed) ?l) Map.empty i \<noteq> None" by blast
    with n a show False by simp
  qed
  from len page'(1) here closed reload show ?thesis by blast
qed

text \<open>
  C6, witness: the patient's page offers Leave Feedback for the completed a1; the
  submission succeeds and stores one record, and the page no longer offers the button.
\<close>

theorem feedback_offered_once_per_page_witness:
  "leaveFeedbackButton patient_page (pt_appointments patient_page ! 0) \<and>
   apt_id (pt_appointments patient_page ! 0) = ''a1'' \<and>
   fst (handleSubmitFeedback (utc (june 10) 10 0) ''f1'' ''a1'' ''d1'' patient_page
          (store_after completed_by_d1)) = toast_success ''Feedback submitted successfully!'' \<and>
   \<not> leaveFeedbackButton
        (fst (snd (handleSubmitFeedback (utc (june 10) 10 0) ''f1'' ''a1'' ''d1'' patient_page
                     (store_after completed_by_d1))))
        (pt_appointments patient_page ! 0) \<and>
   length (db_feedback
        (snd (snd (handleSubmitFeedback (utc (june 10) 10 0) ''f1'' ''a1'' ''d1'' patient_page
                     (store_after completed_by_d1))))) = 1"
proof -
  let ?r = "handleSubmitFeedback (utc (june 10) 10 0) ''f1'' ''a1'' ''d1'' patient_page
              (store_after completed_by_d1)"
  have t: "fst ?r = toast_success ''Feedback submitted successfully!''" by code_simp
  then have h: "?r = (toast_success ''Feedback submitted successfully!'', fst (snd ?r), snd (snd ?r))"
    by (metis prod.collapse)
  have b1: "pt_appointments patient_page ! 0 \<in> set (pt_appointments patient_page)" by code_simp
  have b2: "status (pt_appointments patient_page ! 0) = Completed" by code_simp
  have b3: "doctorId (pt_appointments patient_page ! 0) = Some ''d1''" by code_simp
  have b4: "feedbacks patient_page ''a1'' = None" by code_simp
  have i: "apt_id (pt_appointments patient_page ! 0) = ''a1''" by code_simp
  have b: "leaveFeedbackButton patient_page (pt_appointments patient_page ! 0)"
    using b1 b2 b3 b4 i by (simp add: leaveFeedbackButton_def)
  have e: "length (db_feedback (store_after completed_by_d1)) = 0" by code_simp
  from feedback_offered_once_per_page[OF h] i e
  have "\<not> leaveFeedbackButton (fst (snd ?r)) (pt_appointments patient_page ! 0)"
    and "length (db_feedback (snd (snd ?r))) = 1"
    by auto
  with t b i show ?thesis by blast
qed

section \<open>Ratings and comments\<close>









lemma patientPages_set_doctorPage [simp]: "patientPages (set_doctorPage i p s) = patientPages s"
  by (simp add: set_doctorPage_def)










section \<open>The average rating\<close>

lemma foldl_rating: "foldl (\<lambda>sum feedback. sum + rating feedback) a fbs = a + sum_list (map rating fbs)"
  by (induction fbs arbitrary: a) auto

lemma totalRating_sum: "totalRating fbs = sum_list (map rating fbs)"
  by (simp add: totalRating_def foldl_rating)

lemma length_filter_orderBy:
  "length (filter P (orderBy_createdAt_desc xs)) = length (filter P xs)"
  by (simp add: orderBy_createdAt_desc_def filter_sort)


lemma profile_average_is_mean:
  assumes "role u = role_doctor"
  shows "ps_averageRating (fetchProfileData u db) =
           (if feedbackQuery (uid u) db = [] then js_zero
            else js_divide (sum_list (map rating (feedbackQuery (uid u) db)))
                           (length (feedbackQuery (uid u) db)))"
  using assms by (simp add: fetchProfileData_def Let_def totalRating_sum)

lemma dashboard_average_guarded:
  assumes "role u = role_doctor"
  shows "ds_averageRating (fetchDashboardData u db) =
           (if filter (\<lambda>apt. status apt = Completed) (roleAppointments u db) = [] \<or>
               feedbackQuery (uid u) db = []
            then js_zero
            else js_divide (sum_list (map rating (feedbackQuery (uid u) db)))
                           (length (feedbackQuery (uid u) db)))"
proof -
  have "(length (filter (\<lambda>apt. status apt = Completed)
                  (orderBy_createdAt_desc (roleAppointments u db))) > 0) =
        (filter (\<lambda>apt. status apt = Completed) (roleAppointments u db) \<noteq> [])"
    by (simp add: length_filter_orderBy)
  with assms show ?thesis
    by (simp add: fetchDashboardData_def Let_def totalRating_sum)
qed

text \<open>
  C9. The claim: the average is the arithmetic mean of the ratings of all the doctor's
  feedback records, and 0 only when there are none. \<open>fetchProfileData\<close> computes that.
  \<open>fetchDashboardData\<close> reads the feedback only when the doctor has a completed
  appointment. In the run below a1 is completed in one of d1's tabs, the patient rates it
  4, and d1 presses Start Appointment in a second tab, which writes in-progress: d1 then
  has one feedback, with rating 4, and no completed appointment. The dashboard does not
  read the feedback and shows the 0 it started from; the profile shows 4 / 1.
\<close>

theorem dashboard_zero_with_feedback:
  "runs rated_then_restarted \<and>
   map status (db_appointments (store_after rated_then_restarted)) = [InProgress] \<and>
   map doctorId (db_appointments (store_after rated_then_restarted)) = [Some ''d1''] \<and>
   map fb_doctorId (db_feedback (store_after rated_then_restarted)) = [''d1''] \<and>
   map rating (db_feedback (store_after rated_then_restarted)) = [4] \<and>
   ds_averageRating (fetchDashboardData doctor_d1 (store_after rated_then_restarted)) = js_zero \<and>
   ps_averageRating (fetchProfileData doctor_d1 (store_after rated_then_restarted)) =
     js_divide 4 1"
proof -
  have r: "runs rated_then_restarted" by code_simp
  have a: "map status (db_appointments (store_after rated_then_restarted)) = [InProgress]"
    by code_simp
  have b: "map doctorId (db_appointments (store_after rated_then_restarted)) = [Some ''d1'']"
    by code_simp
  have c: "map fb_doctorId (db_feedback (store_after rated_then_restarted)) = [''d1'']"
    by code_simp
  have d: "map rating (db_feedback (store_after rated_then_restarted)) = [4]" by code_simp
  have e: "ds_averageRating (fetchDashboardData doctor_d1 (store_after rated_then_restarted)) =
             js_zero"
    by code_simp
  have f: "ps_averageRating (fetchProfileData doctor_d1 (store_after rated_then_restarted)) =
             js_divide 4 1"
    by code_simp
  from r a b c d e f show ?thesis by blast
qed

section \<open>The window of the daily cap\<close>

lemma day_div:
  fixes n :: int
  assumes "0 < n" "0 \<le> r" "r < n"
  shows "(D * n + r) div n = D"
  using assms by simp

lemma div_eq_iff_bounds:
  fixes n :: int
  assumes n: "0 < n"
  shows "(x div n = D) = (D * n \<le> x \<and> x < D * n + n)"
proof
  assume d: "x div n = D"
  have "x = n * (x div n) + x mod n" by simp
  with d have x: "x = D * n + x mod n" by (simp add: mult.commute)
  have "0 \<le> x mod n" "x mod n < n" using n by simp_all
  with x show "D * n \<le> x \<and> x < D * n + n" by linarith
next
  assume b: "D * n \<le> x \<and> x < D * n + n"
  then have "0 \<le> x - D * n" "x - D * n < n" by simp_all
  from day_div[OF n this, of D] have "(D * n + (x - D * n)) div n = D" .
  moreover have "D * n + (x - D * n) = x" by simp
  ultimately show "x div n = D" by simp
qed


text \<open>
  With one offset throughout: at or east of UTC the window is the local day of the
  requested date, west of UTC it is the local day before.
\<close>

lemma window_east_of_utc:
  assumes "0 \<le> c" "c < 86400000"
  shows "startOfDay (fixed_zone c) d = days_from_civil d * 86400000 - c"
    and "endOfDay (fixed_zone c) d = days_from_civil d * 86400000 - c + 86399999"
proof -
  let ?D = "days_from_civil d"
  have a: "(?D * 86400000 + c) div 86400000 = ?D"
    by (rule day_div) (use assms in simp_all)
  have b: "(?D * 86400000 - c + c) div 86400000 = ?D"
    using day_div[of 86400000 0 ?D] by simp
  show s: "startOfDay (fixed_zone c) d = ?D * 86400000 - c"
    unfolding startOfDay_def setHours_def new_Date_def fixed_zone_def Let_def
    using a by simp
  show "endOfDay (fixed_zone c) d = ?D * 86400000 - c + 86399999"
    unfolding endOfDay_def s unfolding setHours_def fixed_zone_def Let_def
    using b by simp
qed

lemma window_west_of_utc:
  assumes "- 86400000 \<le> c" "c < 0"
  shows "startOfDay (fixed_zone c) d = (days_from_civil d - 1) * 86400000 - c"
    and "endOfDay (fixed_zone c) d = (days_from_civil d - 1) * 86400000 - c + 86399999"
proof -
  let ?D = "days_from_civil d"
  have "((?D - 1) * 86400000 + (86400000 + c)) div 86400000 = ?D - 1"
    by (rule day_div) (use assms in simp_all)
  moreover have "(?D - 1) * 86400000 + (86400000 + c) = ?D * 86400000 + c"
    by (simp add: algebra_simps)
  ultimately have a: "(?D * 86400000 + c) div 86400000 = ?D - 1" by simp
  have b: "((?D - 1) * 86400000 - c + c) div 86400000 = ?D - 1"
    using day_div[of 86400000 0 "?D - 1"] by simp
  show s: "startOfDay (fixed_zone c) d = (?D - 1) * 86400000 - c"
    unfolding startOfDay_def setHours_def new_Date_def fixed_zone_def Let_def
    using a by simp
  show "endOfDay (fixed_zone c) d = (?D - 1) * 86400000 - c + 86399999"
    unfolding endOfDay_def s unfolding setHours_def fixed_zone_def Let_def
    using b by simp
qed

text \<open>
  In Berlin on 30 March 2025, the day the clocks go forward, the window is the 23 hours of
  that local day.
\<close>

lemma window_on_the_day_the_clocks_change:
  "startOfDay berlin \<lparr>year = 2025, month = 3, day = 30\<rparr> =
     utc \<lparr>year = 2025, month = 3, day = 29\<rparr> 23 0 \<and>
   endOfDay berlin \<lparr>year = 2025, month = 3, day = 30\<rparr> =
     utc \<lparr>year = 2025, month = 3, day = 30\<rparr> 22 0 - 1"
proof -
  have a: "startOfDay berlin \<lparr>year = 2025, month = 3, day = 30\<rparr> =
     utc \<lparr>year = 2025, month = 3, day = 29\<rparr> 23 0" by code_simp
  have b: "endOfDay berlin \<lparr>year = 2025, month = 3, day = 30\<rparr> =
     utc \<lparr>year = 2025, month = 3, day = 30\<rparr> 22 0 - 1" by code_simp
  from a b show ?thesis by blast
qed

text \<open>
  C10. The claim: the window of the daily cap is the day of the requested date.
  \<open>new Date('2025-06-17')\<close> is midnight UTC, which four hours west of UTC is 20:00 on
  16 June, and \<open>setHours\<close> moves it to local midnight of 16 June: the window of a request
  for 17 June is the local day 16 June. In the run below the patient has two appointments
  created at noon local time on 16 June, both for 20 June, and the request made at 14:00
  local time on 16 June for 17 June is refused for them.
\<close>

theorem window_is_day_before_west_of_utc:
  "toasts_after bookings_west_of_utc =
     Some [toast_success ''Appointment booked successfully!'',
           toast_success ''Appointment booked successfully!'',
           toast_error ''You cannot book more than 2 appointments on the same day''] \<and>
   map createdAt (db_appointments (store_after bookings_west_of_utc)) =
     [utc (june 16) 16 0, utc (june 16) 16 10] \<and>
   map date (db_appointments (store_after bookings_west_of_utc)) = [june 20, june 20] \<and>
   (utc (june 16) 16 0 + west_offset) div 86400000 = days_from_civil (june 16) \<and>
   (utc (june 16) 16 10 + west_offset) div 86400000 = days_from_civil (june 16) \<and>
   (utc (june 16) 18 0 + west_offset) div 86400000 = days_from_civil (june 16) \<and>
   startOfDay west (june 17) = utc (june 16) 4 0 \<and>
   endOfDay west (june 17) = utc (june 17) 4 0 - 1"
proof -
  have a: "toasts_after bookings_west_of_utc =
     Some [toast_success ''Appointment booked successfully!'',
           toast_success ''Appointment booked successfully!'',
           toast_error ''You cannot book more than 2 appointments on the same day'']"
    by code_simp
  have b: "map createdAt (db_appointments (store_after bookings_west_of_utc)) =
     [utc (june 16) 16 0, utc (june 16) 16 10]" by code_simp
  have b': "map date (db_appointments (store_after bookings_west_of_utc)) = [june 20, june 20]"
    by code_simp
  have c: "(utc (june 16) 16 0 + west_offset) div 86400000 = days_from_civil (june 16)"
    by code_simp
  have d: "(utc (june 16) 16 10 + west_offset) div 86400000 = days_from_civil (june 16)"
    by code_simp
  have d': "(utc (june 16) 18 0 + west_offset) div 86400000 = days_from_civil (june 16)"
    by code_simp
  have e: "startOfDay west (june 17) = utc (june 16) 4 0" by code_simp
  have f: "endOfDay west (june 17) = utc (june 17) 4 0 - 1" by code_simp
  from a b b' c d d' e f show ?thesis by blast
qed

end
